theory Spec2Isabelle
  imports Complex_Main "HOL-Library.Multiset"
begin

section \<open>Data model\<close>

text \<open>
  Tensors of one fixed shape are the elements of a type \<open>'t\<close>. Where the code adds and
  subtracts them, elementwise \<open>+\<close> and \<open>-\<close> make them an abelian group; where it
  multiplies them by a Python float they form a real vector space. Arithmetic on tensors
  and in the monitor is exact: rounding, infinities and NaN are not modelled, and a
  \<^verbatim>\<open>jnp\<close> division by zero is the outcome \<open>NonFinite\<close>. In the loss, where the number of
  averaged examples depends on how a product of floats rounds, the roundings are
  parameters of the model.

  The class \<open>Context\<close> (\<^verbatim>\<open>src/context.py\<close>) is not among the sources. The records
  below have the attributes that \<^verbatim>\<open>backend.py\<close>, \<^verbatim>\<open>model.py\<close> and
  \<^verbatim>\<open>utils/wandblog.py\<close> read and write; the name cache and the PRNG key are opaque.
  \<^verbatim>\<open>Context.add_to_prefix\<close> is a parameter \<open>add_to_prefix\<close> of every function that calls
  it; its third argument is the keyword \<^verbatim>\<open>count\<close> (\<open>None\<close> when the call omits it).
\<close>

datatype error = IndexError | KeyError | TypeError | ValueError | ZeroDivisionError | NonFinite

datatype dtype = Float16 | BFloat16 | Float32 | Float64

record model_config =
  momentumnet_beta :: real
  depth :: nat
  computation_dtype :: dtype
  storage_dtype :: dtype

record dims_sizes =
  batch :: nat
  heads :: nat
  features_per_head :: nat
  vocab :: nat

record early_stopping_config =
  minimum_relative_loss_change :: real
  maximum_spike_size :: real
  maximum_spike_duration :: int

record training_config =
  loss_top_p :: real
  loss_top_snap :: int
  device_steps :: int
  early_stopping :: early_stopping_config

record wandb_config =
  median_sizes :: "int list"
  log_frequency :: int

record ('t, 'n, 'k) ctx =
  parameters :: "string \<rightharpoonup> 't"
  parameter_variance :: "string \<rightharpoonup> real"
  parameter_dims :: "string \<rightharpoonup> string list"
  name_cache :: 'n
  prng_key :: 'k
  global_prefix :: string
  depth_index :: int
  is_initializing :: bool
  model :: model_config
  sizes :: dims_sizes
  vocab_size :: int

type_synonym ('t, 'n, 'k) add_to_prefix =
  "('t, 'n, 'k) ctx \<Rightarrow> string \<Rightarrow> bool option \<Rightarrow> ('t, 'n, 'k) ctx"

text \<open>
  The operations of \<^verbatim>\<open>jax\<close> and \<^verbatim>\<open>numpy\<close> that the parameter store calls on
  tensors and PRNG keys. \<open>jnp_linalg_qr\<close> stands for the two lines
  \<^verbatim>\<open>out, r = jnp.linalg.qr(m); out *= sign(diag(r))\<close>, and \<open>jnp_unstack\<close> lists the
  slices of a tensor along its leading axis (what iterating over an array yields).
\<close>

record ('t, 'r, 'k) jax =
  jnp_multiply :: "'t \<Rightarrow> real \<Rightarrow> 't"
  jnp_add :: "'t \<Rightarrow> real \<Rightarrow> 't"
  jnp_astype :: "'t \<Rightarrow> dtype \<Rightarrow> 't"
  jnp_reshape :: "'t \<Rightarrow> nat list \<Rightarrow> 't"
  jnp_transpose :: "'t \<Rightarrow> 't"
  jnp_linalg_qr :: "'t \<Rightarrow> 't"
  jnp_unstack :: "'t \<Rightarrow> 'r list"
  random_split :: "'k \<Rightarrow> 'k \<times> 'k"
  random_normal :: "'k \<Rightarrow> nat list \<Rightarrow> dtype \<Rightarrow> 't"

section \<open>The parameter store (\<^verbatim>\<open>backend.py\<close>)\<close>

text \<open>Python's \<^verbatim>\<open>xs[i]\<close>, \<^verbatim>\<open>range(a, b)\<close> and \<^verbatim>\<open>xs[s:]\<close> on a list.\<close>

definition py_index :: "'a list \<Rightarrow> int \<Rightarrow> error + 'a" where
  "py_index xs i =
     (if 0 \<le> i \<and> i < int (length xs) then Inr (xs ! nat i)
      else if i < 0 \<and> - int (length xs) \<le> i then Inr (xs ! nat (int (length xs) + i))
      else Inl IndexError)"

definition py_range :: "int \<Rightarrow> int \<Rightarrow> int list" where
  "py_range a b = [a..b - 1]"

definition py_slice_from :: "int \<Rightarrow> 'a list \<Rightarrow> 'a list" where
  "py_slice_from s xs =
     (if s < 0 then drop (nat (max 0 (int (length xs) + s))) xs else drop (nat s) xs)"

fun py_index_all :: "'a list \<Rightarrow> int list \<Rightarrow> error + 'a list" where
  "py_index_all xs [] = Inr []"
| "py_index_all xs (i # is) =
     (case py_index xs i of
        Inl e \<Rightarrow> Inl e
      | Inr x \<Rightarrow> (case py_index_all xs is of Inl e \<Rightarrow> Inl e | Inr ys \<Rightarrow> Inr (x # ys)))"

text \<open>
  \<^verbatim>\<open>np.delete(shape, column_axes)\<close>, called after every index of \<open>column_axes\<close> has been
  read from \<open>shape\<close>, so each index is in range; negative indices count from the end.
\<close>

definition np_delete :: "'a list \<Rightarrow> int list \<Rightarrow> 'a list" where
  "np_delete xs is =
     map (\<lambda>j. xs ! j)
       (filter (\<lambda>j. int j \<notin> set (map (\<lambda>i. if i < 0 then int (length xs) + i else i) is))
          [0..<length xs])"

definition prefixed_name :: "('t, 'n, 'k) add_to_prefix \<Rightarrow> ('t, 'n, 'k) ctx \<Rightarrow> string \<Rightarrow> string" where
  "prefixed_name add_to_prefix c name = global_prefix (add_to_prefix c name (Some False))"

definition assign ::
  "('t, 'n, 'k) add_to_prefix \<Rightarrow> ('t, 'n, 'k) ctx \<Rightarrow> string \<Rightarrow> 't \<Rightarrow> ('t, 'n, 'k) ctx" where
  "assign add_to_prefix c name inp =
     c\<lparr>parameters := (parameters c)(prefixed_name add_to_prefix c name \<mapsto> inp)\<rparr>"

definition normal ::
  "('t, 'r, 'k) jax \<Rightarrow> ('t, 'n, 'k) ctx \<Rightarrow> nat list \<Rightarrow> 't \<times> ('t, 'n, 'k) ctx" where
  "normal J c shape =
     (let (new_key, key) = random_split J (prng_key c)
      in (random_normal J key shape (storage_dtype (model c)), c\<lparr>prng_key := new_key\<rparr>))"

definition orthogonal_init ::
  "('t, 'r, 'k) jax \<Rightarrow> ('t, 'n, 'k) ctx \<Rightarrow> nat list \<Rightarrow> int list \<Rightarrow>
   error + 't \<times> ('t, 'n, 'k) ctx" where
  "orthogonal_init J c shape column_axes =
     (case py_index_all shape column_axes of
        Inl e \<Rightarrow> Inl e
      | Inr axes \<Rightarrow>
          if prod_list axes = 0 then Inl ZeroDivisionError
          else
            let n_rows = prod_list shape div prod_list axes;
                n_cols = prod_list axes;
                matrix_shape = (if n_rows > n_cols then [n_rows, n_cols] else [n_cols, n_rows]);
                (gaussian, c') = normal J c matrix_shape;
                out = jnp_linalg_qr J gaussian;
                out = (if n_rows < n_cols then jnp_transpose J out else out)
            in Inr (jnp_astype J (jnp_reshape J out (np_delete shape column_axes @ axes))
                      (storage_dtype (model c')), c'))"

text \<open>
  \<^verbatim>\<open>get_param\<close>. \<open>shape\<close> is given at every call site and is not optional here. The
  three initialisation policies are the branches of \<open>init_param\<close>; the lookup at the end
  is \<^verbatim>\<open>ctx.parameters[prefix_name]\<close>.
\<close>

definition init_param ::
  "('t, 'r, 'k) jax \<Rightarrow> ('t, 'n, 'k) ctx \<Rightarrow> nat list \<Rightarrow> real option \<Rightarrow> real option \<Rightarrow> int \<Rightarrow>
   real \<Rightarrow> real \<Rightarrow> 't option \<Rightarrow> error + 't \<times> ('t, 'n, 'k) ctx" where
  "init_param J c shape std mean column_axes scale post_variance_scale init_val =
     (case init_val of
        Some v \<Rightarrow> Inr (jnp_multiply J (jnp_multiply J v scale) post_variance_scale, c)
      | None \<Rightarrow>
          if std = None \<and> mean = None then
            (case orthogonal_init J c shape
                    (py_range (int (length shape) - column_axes) (int (length shape))) of
               Inl e \<Rightarrow> Inl e
             | Inr (param, c') \<Rightarrow> Inr (jnp_multiply J param (scale * post_variance_scale), c'))
          else
            let (param, c') = normal J c shape;
                param = jnp_multiply J param scale;
                param = (case std of None \<Rightarrow> param | Some s \<Rightarrow> jnp_multiply J param s);
                param = (case mean of None \<Rightarrow> param | Some m \<Rightarrow> jnp_add J param m)
            in Inr (param, c'))"

definition get_param ::
  "('t, 'r, 'k) jax \<Rightarrow> ('t, 'n, 'k) add_to_prefix \<Rightarrow> ('t, 'n, 'k) ctx \<Rightarrow> string \<Rightarrow> nat list \<Rightarrow>
   real option \<Rightarrow> real option \<Rightarrow> int \<Rightarrow> real \<Rightarrow> real \<Rightarrow> real \<Rightarrow> dtype option \<Rightarrow> 't option \<Rightarrow>
   error + 't \<times> ('t, 'n, 'k) ctx" where
  "get_param J add_to_prefix c name shape std mean column_axes scale post_variance_scale
     lr_scale dt init_val =
     (let prefix_name = prefixed_name add_to_prefix c name;
          computation = (case dt of None \<Rightarrow> computation_dtype (model c) | Some d \<Rightarrow> d);
          storage = (case dt of None \<Rightarrow> storage_dtype (model c) | Some d \<Rightarrow> d);
          created =
            (if parameters c prefix_name = None then
               (case init_param J c shape std mean column_axes scale post_variance_scale
                       init_val of
                  Inl e \<Rightarrow> Inl e
                | Inr (param, c1) \<Rightarrow>
                    let c2 = c1\<lparr>parameter_variance :=
                                 (parameter_variance c1)(prefix_name \<mapsto> lr_scale * scale)\<rparr>
                    in Inr (assign add_to_prefix c2 name (jnp_astype J param storage)))
             else Inr c)
      in case created of
           Inl e \<Rightarrow> Inl e
         | Inr c3 \<Rightarrow>
             (case parameters c3 prefix_name of
                None \<Rightarrow> Inl KeyError
              | Some param \<Rightarrow> Inr (jnp_astype J param computation, c3)))"

section \<open>The model (\<^verbatim>\<open>model.py\<close>)\<close>

text \<open>
  \<^verbatim>\<open>REVERSIBLE_CTX\<close>: the parameter dictionary and the two rails, each followed by its
  backup slot.
\<close>

type_synonym 't reversible_ctx = "(string \<rightharpoonup> 't) \<times> 't \<times> 't \<times> 't \<times> 't"

text \<open>
  A block function receives a context, a tensor and the depth index. It may create
  parameters and advance the name cache of the context it is given, so the model returns
  that context next to the output.
\<close>

type_synonym ('t, 'n, 'k) block_fn =
  "('t, 'n, 'k) ctx \<Rightarrow> 't \<Rightarrow> int \<Rightarrow> 't \<times> ('t, 'n, 'k) ctx"

subsection \<open>The reversible composition engine\<close>

text \<open>
  \<^verbatim>\<open>base\<close>, the closure inside \<^verbatim>\<open>reversible\<close>: it resets the name cache to the copy
  saved when \<^verbatim>\<open>reversible\<close> was entered, derives the sub-context, installs the given
  parameters, runs the block function at the context's depth index and keeps the name
  cache the block left behind.
\<close>

definition base ::
  "('t, 'n, 'k) add_to_prefix \<Rightarrow> ('t, 'n, 'k) block_fn \<Rightarrow> 'n \<Rightarrow>
   ('t, 'n, 'k) ctx \<Rightarrow> (string \<rightharpoonup> 't) \<Rightarrow> 't \<Rightarrow> 't \<times> ('t, 'n, 'k) ctx" where
  "base add_to_prefix fn saved_cache c params inp =
     (let c1 = c\<lparr>name_cache := saved_cache\<rparr>;
          new_ctx = (add_to_prefix c1 ''reversible'' None)\<lparr>parameters := params\<rparr>;
          (out, new_ctx') = fn new_ctx inp (depth_index new_ctx)
      in (out, c1\<lparr>name_cache := name_cache new_ctx'\<rparr>))"

text \<open>
  \<^verbatim>\<open>reversible\<close>. While initializing, the block runs once on the second rail and the
  context takes over the parameters, dimensions, name cache and PRNG key of the
  sub-context. Otherwise the custom-gradient function \<^verbatim>\<open>_fn\<close> is applied: its forward
  value is \<open>(params, x1, x1, out, out)\<close> with \<open>out = base(params, x1) + x0\<close>.
\<close>

definition reversible ::
  "('t::ab_group_add, 'n, 'k) add_to_prefix \<Rightarrow> ('t, 'n, 'k) ctx \<Rightarrow>
   ('t, 'n, 'k) block_fn \<Rightarrow> 't reversible_ctx \<Rightarrow> ('t, 'n, 'k) ctx \<times> 't reversible_ctx" where
  "reversible add_to_prefix c fn src =
     (if is_initializing c then
        (case src of (params, x00, x01, x10, x11) \<Rightarrow>
           let new_ctx = (add_to_prefix c ''reversible'' None)\<lparr>parameters := params\<rparr>;
               (out, new_ctx') = fn new_ctx x10 (depth_index new_ctx)
           in (c\<lparr>parameters := parameters new_ctx',
                  parameter_dims := parameter_dims new_ctx',
                  name_cache := name_cache new_ctx',
                  prng_key := prng_key new_ctx'\<rparr>,
               (parameters new_ctx', x10, x11, out, x01)))
      else
        (case src of (params, x0, back_x0, x1, back_x1) \<Rightarrow>
           let (y, c') = base add_to_prefix fn (name_cache c) c params x1;
               out = y + x0
           in (c', (params, x1, x1, out, out))))"

text \<open>
  The dictionary comprehension of \<^verbatim>\<open>_grad\<close>:
  \<^verbatim>\<open>{k: d_params_old.get(k, 0) + d_params.get(k, 0) for k in d_params.keys()}\<close>.
\<close>

definition accumulate_grads ::
  "(string \<rightharpoonup> 't::ab_group_add) \<Rightarrow> (string \<rightharpoonup> 't) \<Rightarrow> (string \<rightharpoonup> 't)" where
  "accumulate_grads d_params_old d_params =
     (\<lambda>k. case d_params k of
            None \<Rightarrow> None
          | Some g \<Rightarrow> Some ((case d_params_old k of None \<Rightarrow> 0 | Some g' \<Rightarrow> g') + g))"

text \<open>
  \<^verbatim>\<open>_grad\<close>, the backward rule of \<^verbatim>\<open>reversible\<close>. It receives
  \<open>(d_params_old, dy0, y0, dy1, y1)\<close>, re-runs \<^verbatim>\<open>base\<close> on \<open>(params, y0)\<close> and returns
  \<open>(d_params, dy1, y1 - base(params, y0), dx0 + dy0, y0)\<close>. \<open>pullback params y0 dy1\<close> is
  what \<^verbatim>\<open>jax.vjp(base, params, y0)[1](dy1)\<close> returns, the pair \<open>(d_params, dx0)\<close>;
  automatic differentiation is a parameter. \<open>saved_cache\<close> is the name cache saved by
  the enclosing call of \<^verbatim>\<open>reversible\<close>, and \<open>c\<close> the context when the rule runs.
\<close>

definition reversible_grad ::
  "('t::ab_group_add, 'n, 'k) add_to_prefix \<Rightarrow> ('t, 'n, 'k) block_fn \<Rightarrow>
   ((string \<rightharpoonup> 't) \<Rightarrow> 't \<Rightarrow> 't \<Rightarrow> (string \<rightharpoonup> 't) \<times> 't) \<Rightarrow> 'n \<Rightarrow> ('t, 'n, 'k) ctx \<Rightarrow>
   (string \<rightharpoonup> 't) \<Rightarrow> 't reversible_ctx \<Rightarrow> ('t, 'n, 'k) ctx \<times> 't reversible_ctx" where
  "reversible_grad add_to_prefix fn pullback saved_cache c params dy =
     (case dy of (d_params_old, dy0, y0, dy1, y1) \<Rightarrow>
        let (x0, c') = base add_to_prefix fn saved_cache c params y0;
            (d_params, dx0) = pullback params y0 dy1
        in (c', (accumulate_grads d_params_old d_params, dy1, y1 - x0, dx0 + dy0, y0)))"

text \<open>
  \<^verbatim>\<open>momentumnet_main\<close> and \<^verbatim>\<open>momentumnet_side\<close>. Both read the momentum coefficient
  from the outer context. The depth index is an \<^verbatim>\<open>int32\<close> array in the source; it
  counts blocks and is modelled as an unbounded integer. \<open>x * a / b\<close> on a tensor is
  \<open>(x *\<^sub>R a) /\<^sub>R b\<close>, written with the scalar first in HOL.
\<close>

definition momentumnet_main ::
  "('t::real_vector, 'n, 'k) ctx \<Rightarrow> (('t, 'n, 'k) ctx \<Rightarrow> 't \<Rightarrow> 't \<times> ('t, 'n, 'k) ctx) \<Rightarrow>
   ('t, 'n, 'k) block_fn" where
  "momentumnet_main c fn =
     (\<lambda>sub_ctx x idx.
        fn sub_ctx (((1 - momentumnet_beta (model c)) *\<^sub>R x)
                      /\<^sub>R (momentumnet_beta (model c) powi (idx + 1))))"

definition momentumnet_side :: "('t::real_vector, 'n, 'k) ctx \<Rightarrow> ('t, 'n, 'k) block_fn" where
  "momentumnet_side c = (\<lambda>ignored x idx. ((momentumnet_beta (model c) powi idx) *\<^sub>R x, ignored))"

text \<open>
  \<^verbatim>\<open>revnet_out\<close>: the forward value of \<^verbatim>\<open>_fn\<close> and its backward rule \<^verbatim>\<open>_grad\<close>.
\<close>

definition revnet_out :: "'t::ab_group_add \<times> 't \<times> 't \<times> 't \<Rightarrow> 't" where
  "revnet_out src = (case src of (x0, x0_back, x1, x1_back) \<Rightarrow> x0 + x1)"

definition revnet_out_grad :: "'t \<times> 't \<times> 't \<times> 't \<Rightarrow> 't \<Rightarrow> 't \<times> 't \<times> 't \<times> 't" where
  "revnet_out_grad src dy = (case src of (x0, x0_back, x1, x1_back) \<Rightarrow> (dy, x0, dy, x1))"


subsection \<open>Embedding lookup\<close>

text \<open>
  \<^verbatim>\<open>one_hot\<close> compares every entry of \<open>inp\<close> with \<^verbatim>\<open>arange(0, size)\<close> along a new last
  axis. \<open>inp\<close> is the list of the entries of the token tensor; each entry yields one
  row of booleans.
\<close>

definition one_hot :: "int list \<Rightarrow> int \<Rightarrow> bool list list" where
  "one_hot inp size' = map (\<lambda>token. map (\<lambda>j. token = j) (py_range 0 size')) inp"

text \<open>
  \<^verbatim>\<open>matmul(left, right)\<close> with \<^verbatim>\<open>reduced_dims=1\<close> is \<^verbatim>\<open>lax.dot_general\<close> contracting the
  last axis of \<open>left\<close> with the first axis of \<open>right\<close>. \<open>left\<close> is a list of rows,
  \<open>right\<close> the list of its slices along the first axis; axes of different lengths are
  a \<^verbatim>\<open>TypeError\<close>.
\<close>

definition matmul :: "real list list \<Rightarrow> 'r::real_vector list \<Rightarrow> error + 'r list" where
  "matmul left right =
     (if list_all (\<lambda>row. length row = length right) left
      then Inr (map (\<lambda>row. sum_list (map2 (\<lambda>a r. a *\<^sub>R r) row right)) left)
      else Inl TypeError)"

text \<open>
  \<^verbatim>\<open>input_embed\<close>. The result is the token tensor itself while initializing and the
  embedded tokens otherwise. The context returned is the sub-context after
  \<^verbatim>\<open>get_param\<close>.
\<close>

definition input_embed ::
  "('t, 'r::real_vector, 'k) jax \<Rightarrow> ('t, 'n, 'k) add_to_prefix \<Rightarrow> ('t, 'n, 'k) ctx \<Rightarrow> int list \<Rightarrow>
   error + (int list + 'r list) \<times> ('t, 'n, 'k) ctx" where
  "input_embed J add_to_prefix c inp =
     (let c1 = add_to_prefix c ''input_embed'' None
      in case get_param J add_to_prefix c1 ''inp_embd''
                [vocab (sizes c1), heads (sizes c1), features_per_head (sizes c1)]
                None None 2 1 1 1 None None of
           Inl e \<Rightarrow> Inl e
         | Inr (inp_embd, c2) \<Rightarrow>
             if is_initializing c2 then Inr (Inl inp, c2)
             else
               (case matmul (map (map of_bool) (one_hot inp (vocab_size c2)))
                       (jnp_unstack J inp_embd) of
                  Inl e \<Rightarrow> Inl e
                | Inr out \<Rightarrow> Inr (Inr out, c2)))"

subsection \<open>The collective layer\<close>

text \<open>
  The collectives \<^verbatim>\<open>lax.psum_scatter\<close> and \<^verbatim>\<open>lax.all_gather\<close> and the method
  \<^verbatim>\<open>reshape\<close> belong to the JAX library; \<^verbatim>\<open>psum_scatter\<close> calls them and their code is
  not among the sources. The group of workers on the model-parallel axis is the list of
  the tensors the workers hold, in worker order; a tensor is the list of its entries
  along the sharded dimension, and a worker is its position in the group.
\<close>

text \<open>
  Modelled from the spec: the reduction across the group, missing with the JAX library.
  It is the entrywise sum of the workers' tensors.
\<close>

definition psum :: "'a::comm_monoid_add list list \<Rightarrow> 'a list" where
  "psum tensors = map (\<lambda>j. sum_list (map (\<lambda>x. x ! j) tensors)) [0..<length (hd tensors)]"

text \<open>
  Modelled from the spec: \<^verbatim>\<open>lax.psum_scatter\<close>, missing with the JAX library. The forward
  pass reduces across the group and scatters disjoint shards of the result back to each
  worker, each worker keeping a different \<open>1/N\<close> slice; the group size must evenly divide
  the sharded dimension, and a group in which it does not is a configuration error.
  Worker \<open>i\<close> keeps the \<open>i\<close>-th slice.
\<close>

definition lax_psum_scatter :: "'a::comm_monoid_add list list \<Rightarrow> nat \<Rightarrow> error + 'a list" where
  "lax_psum_scatter tensors worker =
     (if length tensors \<le> worker then Inl ValueError
      else if \<not> list_all (\<lambda>x. length x = length (hd tensors)) tensors then Inl ValueError
      else if length (hd tensors) mod length tensors \<noteq> 0 then Inl ValueError
      else Inr (take (length (hd tensors) div length tensors)
                  (drop (worker * (length (hd tensors) div length tensors)) (psum tensors))))"

text \<open>
  Modelled from the spec: \<^verbatim>\<open>lax.all_gather\<close>, missing with the JAX library. Every worker
  receives the values of all workers of the group, in worker order, along a new leading
  axis.
\<close>

definition lax_all_gather :: "'b list \<Rightarrow> nat \<Rightarrow> error + 'b list" where
  "lax_all_gather tensors worker = (if length tensors \<le> worker then Inl ValueError else Inr tensors)"

text \<open>
  Modelled from the spec: \<^verbatim>\<open>x.reshape(shape)\<close>, missing with the JAX library, for a
  gathered tensor \<open>x\<close> and the shape of a tensor along the sharded dimension. The
  gathered shards are reassembled in order, row after row; entries that do not fill the
  requested shape exactly are an error.
\<close>

definition reshape_rows :: "'a list list \<Rightarrow> nat \<Rightarrow> error + 'a list" where
  "reshape_rows rows shape =
     (if length (concat rows) = shape then Inr (concat rows) else Inl TypeError)"

text \<open>
  \<^verbatim>\<open>psum_scatter\<close> as one worker runs it: the forward value of \<^verbatim>\<open>_fn\<close> is
  \<^verbatim>\<open>lax.psum_scatter(src, ParallelAxes.model)\<close>, and the backward rule \<^verbatim>\<open>_grad\<close> is
  \<^verbatim>\<open>lax.all_gather(out, ParallelAxes.model).reshape(inp.shape)\<close>. \<open>inputs\<close> holds the
  argument \<^verbatim>\<open>inp\<close> of every worker and \<open>grads\<close> the incoming gradient \<^verbatim>\<open>out\<close> of every
  worker; \<open>inp\<close> is the argument of the worker that runs the rule.
\<close>

definition psum_scatter :: "'a::comm_monoid_add list list \<Rightarrow> nat \<Rightarrow> error + 'a list" where
  "psum_scatter inputs worker = lax_psum_scatter inputs worker"

definition psum_scatter_grad :: "'a list \<Rightarrow> 'a list list \<Rightarrow> nat \<Rightarrow> error + 'a list" where
  "psum_scatter_grad inp grads worker =
     (case lax_all_gather grads worker of
        Inl e \<Rightarrow> Inl e
      | Inr gathered \<Rightarrow> reshape_rows gathered (length inp))"

subsection \<open>Loss\<close>

text \<open>
  Floating-point arithmetic. \<^verbatim>\<open>batch * p / snap\<close> is evaluated on Python floats before
  \<^verbatim>\<open>math.ceil\<close> is applied, and the sums and quotients of the losses are operations on
  \<^verbatim>\<open>float32\<close> arrays. The roundings are parameters of the model: \<open>py_float\<close> maps the exact
  result of an operation on Python floats to the float the operation returns, \<open>jnp_sum\<close>
  is \<^verbatim>\<open>.sum()\<close> of an array of losses, and \<open>jnp_float\<close> maps the exact quotient of an array
  by a number to the array entry the division returns. \<open>exact_arithmetic\<close> rounds nothing.
\<close>

record arithmetic =
  py_float :: "real \<Rightarrow> real"
  jnp_sum :: "real list \<Rightarrow> real"
  jnp_float :: "real \<Rightarrow> real"

definition exact_arithmetic :: arithmetic where
  "exact_arithmetic = \<lparr>py_float = (\<lambda>x. x), jnp_sum = sum_list, jnp_float = (\<lambda>x. x)\<rparr>"

text \<open>
  \<^verbatim>\<open>lax.top_k(x, k)\<close>: the \<open>k\<close> largest entries, largest first; \<open>k\<close> must lie between
  \<open>0\<close> and the number of entries. \<open>jnp_true_divide\<close> is the division of an array by a
  Python integer.
\<close>

definition lax_top_k :: "real list \<Rightarrow> int \<Rightarrow> error + real list" where
  "lax_top_k operand k =
     (if k < 0 \<or> int (length operand) < k then Inl ValueError
      else Inr (take (nat k) (rev (sort operand))))"

definition jnp_true_divide :: "arithmetic \<Rightarrow> real \<Rightarrow> int \<Rightarrow> error + real" where
  "jnp_true_divide A a b = (if b = 0 then Inl NonFinite else Inr (jnp_float A (a / of_int b)))"

text \<open>
  The variable \<^verbatim>\<open>top_k\<close> of \<^verbatim>\<open>compute\<close>:
  \<^verbatim>\<open>math.ceil(batch * loss_top_p / loss_top_snap)\<close>, then multiplied by
  \<^verbatim>\<open>loss_top_snap\<close>. The product and the quotient are Python floats, each rounded; the
  ceiling of a float and the product of two integers are exact.
\<close>

definition top_k :: "arithmetic \<Rightarrow> dims_sizes \<Rightarrow> training_config \<Rightarrow> int" where
  "top_k A sz tr =
     \<lceil>py_float A (py_float A (real (batch sz) * loss_top_p tr) / real_of_int (loss_top_snap tr))\<rceil>
       * loss_top_snap tr"

text \<open>
  \<^verbatim>\<open>compute\<close>. \<open>unreduced\<close> stands for
  \<^verbatim>\<open>cross_entropy_loss(ctx, body_ctx(ctx, src), tgt)\<close>, the per-example losses; the
  configuration is that of the fresh \<^verbatim>\<open>Context()\<close>. The result is
  \<open>(top_loss, loss)\<close>. \<^verbatim>\<open>batch * p / snap\<close> is a division of Python numbers and raises
  \<^verbatim>\<open>ZeroDivisionError\<close> when \<open>snap\<close> is \<open>0\<close>.
\<close>

definition compute ::
  "arithmetic \<Rightarrow> dims_sizes \<Rightarrow> training_config \<Rightarrow> ('p \<Rightarrow> 'i \<Rightarrow> error + real list) \<Rightarrow> 'p \<Rightarrow> 'i \<Rightarrow>
   error + real \<times> real" where
  "compute A sz tr unreduced params inp =
     (case unreduced params inp of
        Inl e \<Rightarrow> Inl e
      | Inr unreduced_loss \<Rightarrow>
          if loss_top_snap tr = 0 then Inl ZeroDivisionError
          else
            (case jnp_true_divide A (jnp_sum A unreduced_loss) (int (batch sz)) of
               Inl e \<Rightarrow> Inl e
             | Inr loss \<Rightarrow>
                 let k = top_k A sz tr
                 in if loss_top_p tr < 1 \<and> k < int (batch sz) then
                      (case lax_top_k unreduced_loss k of
                         Inl e \<Rightarrow> Inl e
                       | Inr top_values \<Rightarrow>
                           (case jnp_true_divide A (jnp_sum A top_values) k of
                              Inl e \<Rightarrow> Inl e
                            | Inr top_loss \<Rightarrow> Inr (top_loss, loss)))
                    else Inr (loss, loss)))"

text \<open>
  The quantities the loss-truncation property speaks about: the mean, as the arithmetic
  computes it, of the \<open>k\<close> worst (largest) per-example losses, and the mean of all of them.
\<close>

definition mean_of_worst :: "arithmetic \<Rightarrow> nat \<Rightarrow> real list \<Rightarrow> real" where
  "mean_of_worst A k ls = jnp_float A (jnp_sum A (take k (rev (sort ls))) / real k)"

definition mean_of_all :: "arithmetic \<Rightarrow> real list \<Rightarrow> real" where
  "mean_of_all A ls = jnp_float A (jnp_sum A ls / real (length ls))"

section \<open>The streaming monitor (\<^verbatim>\<open>utils/wandblog.py\<close>)\<close>

text \<open>
  The state of \<^verbatim>\<open>WandbLog\<close>. \<open>run\<close> tells whether a tracking sink is present; the
  start time only enters the metrics that are sent to it, which are not modelled.
\<close>

record wandb_log =
  run :: bool
  losses :: "real list"
  accuracies :: "real list"
  idx :: int
  loss_medians :: "real list"

definition wandb_log_init :: "bool \<Rightarrow> wandb_log" where
  "wandb_log_init r = \<lparr>run = r, losses = [], accuracies = [], idx = 0, loss_medians = []\<rparr>"

text \<open>
  What a call returns: \<^verbatim>\<open>True\<close> after printing \<^verbatim>\<open>Not Improving\<close> or \<^verbatim>\<open>Spiking\<close>,
  \<^verbatim>\<open>False\<close> when there is no sink or after the metrics have been logged.
\<close>

datatype signal = NotImproving | Spiking | NoRun | Logged

definition returned :: "signal \<Rightarrow> bool" where
  "returned s = (s = NotImproving \<or> s = Spiking)"

text \<open>\<^verbatim>\<open>max\<close> of a Python list and \<^verbatim>\<open>np.median\<close> of a list of floats.\<close>

definition py_max :: "int list \<Rightarrow> error + int" where
  "py_max xs = (case xs of [] \<Rightarrow> Inl ValueError | x # rest \<Rightarrow> Inr (fold max rest x))"

definition np_median :: "real list \<Rightarrow> error + real" where
  "np_median xs =
     (let s = sort xs; n = length xs
      in if n = 0 then Inl NonFinite
         else if odd n then Inr (s ! (n div 2))
         else Inr ((s ! (n div 2 - 1) + s ! (n div 2)) / 2))"

text \<open>
  \<^verbatim>\<open>WandbLog.__call__\<close>, given the accumulated \<^verbatim>\<open>wctx.loss\<close> and \<^verbatim>\<open>wctx.top_loss\<close>.
  With \<open>device_steps = 0\<close> the list comprehension for \<open>sizes\<close> raises
  \<^verbatim>\<open>ZeroDivisionError\<close> unless \<open>median_sizes\<close> is empty, and then \<^verbatim>\<open>max\<close> raises.
\<close>

definition wandb_call ::
  "training_config \<Rightarrow> wandb_config \<Rightarrow> wandb_log \<Rightarrow> real \<Rightarrow> real \<Rightarrow> error + signal \<times> wandb_log" where
  "wandb_call tr wb self loss top_loss =
     (let self = self\<lparr>idx := idx self + 1\<rparr>;
          steps = device_steps tr
      in if steps = 0 \<and> median_sizes wb \<noteq> [] then Inl ZeroDivisionError
         else
           let curr_loss = loss / real_of_int steps;
               szs = map (\<lambda>s. s div steps) (median_sizes wb);
               self = self\<lparr>losses := losses self @ [curr_loss]\<rparr>;
               self = self\<lparr>accuracies := accuracies self @ [top_loss / real_of_int steps]\<rparr>
           in case py_max szs of
                Inl e \<Rightarrow> Inl e
              | Inr m \<Rightarrow>
                  (case np_median (py_slice_from (- m) (losses self)) of
                     Inl e \<Rightarrow> Inl e
                   | Inr med \<Rightarrow>
                       let self = self\<lparr>loss_medians := loss_medians self @ [med]\<rparr>;
                           self = self\<lparr>losses := py_slice_from (- m) (losses self)\<rparr>;
                           self = self\<lparr>accuracies := py_slice_from (- m) (accuracies self)\<rparr>;
                           self = self\<lparr>loss_medians := py_slice_from (- m) (loss_medians self)\<rparr>;
                           es = early_stopping tr
                       in (case (py_index (loss_medians self) 0,
                                 py_index (loss_medians self) (- 1)) of
                             (Inr oldest, Inr newest) \<Rightarrow>
                               if oldest < newest * (1 - minimum_relative_loss_change es)
                               then Inr (NotImproving, self)
                               else if list_all (\<lambda>l. l > newest * maximum_spike_size es)
                                         (py_slice_from ((- maximum_spike_duration es) div steps)
                                            (losses self))
                               then Inr (Spiking, self)
                               else if \<not> run self then Inr (NoRun, self)
                               else Inr (Logged, self)
                           | _ \<Rightarrow> Inl IndexError)))"

text \<open>
  The monitor is called once per log tick; the caller goes on whatever a call returned.
  \<open>feed\<close> runs the calls for a list of \<open>(loss, top_loss)\<close> pairs and collects the
  signals.
\<close>

fun feed ::
  "training_config \<Rightarrow> wandb_config \<Rightarrow> wandb_log \<Rightarrow> (real \<times> real) list \<Rightarrow>
   error + signal list \<times> wandb_log" where
  "feed tr wb self [] = Inr ([], self)"
| "feed tr wb self ((loss, top_loss) # rest) =
     (case wandb_call tr wb self loss top_loss of
        Inl e \<Rightarrow> Inl e
      | Inr (s, self') \<Rightarrow>
          (case feed tr wb self' rest of
             Inl e \<Rightarrow> Inl e
           | Inr (ss, self'') \<Rightarrow> Inr (s # ss, self'')))"

text \<open>
  The quantities the window properties speak about. \<open>fed_losses\<close> and \<open>fed_accuracies\<close>
  are the values the calls append to the loss and the accuracy window, in order of
  arrival. \<open>newest m ys\<close> holds the \<open>m\<close> most recent entries of \<open>ys\<close> in order of arrival,
  and all of \<open>ys\<close> when \<open>m\<close> is \<open>0\<close>. \<open>median_history\<close> lists, call by call, the median of
  the \<open>newest m\<close> losses fed up to and including that call.
\<close>

definition fed_losses :: "training_config \<Rightarrow> (real \<times> real) list \<Rightarrow> real list" where
  "fed_losses tr xs = map (\<lambda>(l, t). l / real_of_int (device_steps tr)) xs"

definition fed_accuracies :: "training_config \<Rightarrow> (real \<times> real) list \<Rightarrow> real list" where
  "fed_accuracies tr xs = map (\<lambda>(l, t). t / real_of_int (device_steps tr)) xs"

definition newest :: "int \<Rightarrow> 'a list \<Rightarrow> 'a list" where
  "newest m ys = (if m = 0 then ys else drop (length ys - nat m) ys)"

definition median_history ::
  "training_config \<Rightarrow> int \<Rightarrow> (real \<times> real) list \<Rightarrow> (error + real) list" where
  "median_history tr m xs =
     map (\<lambda>i. np_median (newest m (take (Suc i) (fed_losses tr xs)))) [0..<length xs]"

section \<open>Example inputs\<close>

text \<open>
  A context in executing mode with momentum coefficient \<open>1/2\<close>, whose tensors are
  single real numbers, and a prefix function that appends the name to the prefix.
\<close>

definition executing_ctx :: "(real, unit, unit) ctx" where
  "executing_ctx =
     \<lparr>parameters = Map.empty, parameter_variance = Map.empty, parameter_dims = Map.empty,
      name_cache = (), prng_key = (), global_prefix = ''/'', depth_index = 2,
      is_initializing = False,
      model = \<lparr>momentumnet_beta = 1 / 2, depth = 1, computation_dtype = Float32,
                storage_dtype = BFloat16\<rparr>,
      sizes = \<lparr>batch = 5, heads = 1, features_per_head = 1, vocab = 3\<rparr>,
      vocab_size = 3\<rparr>"

definition append_prefix :: "('t, 'n, 'k) add_to_prefix" where
  "append_prefix c name count' = c\<lparr>global_prefix := global_prefix c @ name @ ''/''\<rparr>"

text \<open>
  A backend whose tensors are lists of reals: scalars act entrywise, casts and reshapes
  leave the entries alone, the slices along the leading axis are the entries, and the
  random draw is the zero tensor of the requested size. \<open>store_ctx\<close> is an executing
  context over such tensors with the given parameters and learning-rate scales.
\<close>

definition list_jax :: "(real list, real, unit) jax" where
  "list_jax =
     \<lparr>jnp_multiply = (\<lambda>t r. map (\<lambda>x. x * r) t),
      jnp_add = (\<lambda>t r. map (\<lambda>x. x + r) t),
      jnp_astype = (\<lambda>t d. t),
      jnp_reshape = (\<lambda>t s. t),
      jnp_transpose = (\<lambda>t. t),
      jnp_linalg_qr = (\<lambda>t. t),
      jnp_unstack = (\<lambda>t. t),
      random_split = (\<lambda>k. (k, k)),
      random_normal = (\<lambda>k shape d. replicate (prod_list shape) 0)\<rparr>"

definition store_ctx ::
  "(string \<rightharpoonup> real list) \<Rightarrow> (string \<rightharpoonup> real) \<Rightarrow> (real list, unit, unit) ctx" where
  "store_ctx ps vs =
     \<lparr>parameters = ps, parameter_variance = vs, parameter_dims = Map.empty,
      name_cache = (), prng_key = (), global_prefix = ''/'', depth_index = 0,
      is_initializing = False,
      model = \<lparr>momentumnet_beta = 1 / 2, depth = 1, computation_dtype = Float32,
                storage_dtype = BFloat16\<rparr>,
      sizes = \<lparr>batch = 5, heads = 1, features_per_head = 1, vocab = 3\<rparr>,
      vocab_size = 3\<rparr>"

text \<open>A training configuration and batch sizes for the examples.\<close>

definition example_training :: training_config where
  "example_training =
     \<lparr>loss_top_p = 1, loss_top_snap = 1, device_steps = 1,
      early_stopping = \<lparr>minimum_relative_loss_change = 1 / 10, maximum_spike_size = 2,
                         maximum_spike_duration = 2\<rparr>\<rparr>"

definition example_sizes :: "nat \<Rightarrow> dims_sizes" where
  "example_sizes b = \<lparr>batch = b, heads = 1, features_per_head = 1, vocab = 3\<rparr>"

text \<open>
  An arithmetic in which an operation on Python floats returns a multiple of \<open>2 ^ - e\<close>
  nearest to the exact result, as the rounding to a float does for results in a range
  where neighbouring floats are \<open>2 ^ - e\<close> apart; sums and quotients of losses are exact.
\<close>

definition spaced_floats :: "nat \<Rightarrow> arithmetic" where
  "spaced_floats e =
     \<lparr>py_float = (\<lambda>x. real_of_int (round (x * 2 ^ e)) / 2 ^ e), jnp_sum = sum_list,
      jnp_float = (\<lambda>x. x)\<rparr>"

text \<open>A monitor configuration whose largest window holds two entries.\<close>

definition example_wandb :: wandb_config where
  "example_wandb = \<lparr>median_sizes = [2, 1], log_frequency = 1\<rparr>"

section \<open>Properties of the parameter store\<close>

text \<open>
  Claim C4, as amended. For every name that is already in the store, \<^verbatim>\<open>get_param\<close>
  returns the stored tensor, cast to the computation precision, and leaves the context
  as it is, whatever shape and initialisation policy the call asks for. No shape is
  compared and no error is raised.
\<close>

theorem get_param_existing_name:
  assumes "parameters c (prefixed_name add_to_prefix c name) = Some stored"
  shows "get_param J add_to_prefix c name shape std mean column_axes scale post_variance_scale
           lr_scale dt init_val =
         Inr (jnp_astype J stored
                (case dt of None \<Rightarrow> computation_dtype (model c) | Some d \<Rightarrow> d), c)"
  using assms by (simp add: get_param_def Let_def)

theorem get_param_existing_name_witness:
  "get_param list_jax append_prefix (store_ctx [''/w/'' \<mapsto> [1, 1]] Map.empty) ''w'' [3]
     None None 1 1 1 1 None None = Inr ([1, 1], store_ctx [''/w/'' \<mapsto> [1, 1]] Map.empty)"
  using get_param_existing_name [of "store_ctx [''/w/'' \<mapsto> [1, 1]] Map.empty" append_prefix
      "''w''" "[1, 1]" list_jax "[3]" None None 1 1 1 1 None None]
  by (simp add: store_ctx_def append_prefix_def prefixed_name_def list_jax_def)

text \<open>
  Claim C4 as stated fails. A first call creates \<open>w\<close> with shape \<open>[2]\<close> (mean \<open>1\<close>,
  deviation \<open>0\<close>); a second call asks for the same name with shape \<open>[3]\<close> and gets the
  stored tensor of two entries back, without an error.
\<close>

theorem get_param_shape_mismatch_counterexample:
  "get_param list_jax append_prefix (store_ctx Map.empty Map.empty) ''w'' [2]
     (Some 0) (Some 1) 1 1 1 1 None None =
     Inr ([1, 1], store_ctx [''/w/'' \<mapsto> [1, 1]] [''/w/'' \<mapsto> 1])
   \<and> get_param list_jax append_prefix (store_ctx [''/w/'' \<mapsto> [1, 1]] [''/w/'' \<mapsto> 1]) ''w'' [3]
     (Some 0) (Some 1) 1 1 1 1 None None =
     Inr ([1, 1], store_ctx [''/w/'' \<mapsto> [1, 1]] [''/w/'' \<mapsto> 1])"
  by (simp add: get_param_def init_param_def normal_def assign_def store_ctx_def append_prefix_def
      prefixed_name_def list_jax_def Let_def numeral_2_eq_2)

section \<open>Properties of the reversible engine\<close>

lemma base_name_cache [simp]:
  "base add_to_prefix fn saved (c\<lparr>name_cache := nc\<rparr>) params inp =
   base add_to_prefix fn saved c params inp"
  by (simp add: base_def)

text \<open>
  Claim C1. In executing mode the forward step of \<^verbatim>\<open>reversible\<close> maps
  \<open>(params, x0, x0_backup, x1, x1_backup)\<close> to \<open>(params, x1, x1, f x1 + x0, f x1 + x0)\<close>,
  where \<open>f\<close> is \<^verbatim>\<open>base\<close> at these parameters. Fed with the values of that output
  (\<open>y0 = x1\<close> and \<open>y1 = f x1 + x0\<close> in the two backup slots), the backward rule returns
  \<open>y1 - f y0 = x0\<close> and \<open>y0 = x1\<close> in the backup slots: the rails before the block. The
  context of the backward pass may differ from the forward one in its name cache, which
  \<^verbatim>\<open>base\<close> resets.
\<close>

theorem reversible_round_trip:
  assumes "\<not> is_initializing c"
  shows "snd (reversible add_to_prefix c fn (params, x0, x0_backup, x1, x1_backup)) =
           (params, x1, x1,
            fst (base add_to_prefix fn (name_cache c) c params x1) + x0,
            fst (base add_to_prefix fn (name_cache c) c params x1) + x0)
       \<and> (case snd (reversible add_to_prefix c fn (params, x0, x0_backup, x1, x1_backup)) of
            (p, y0, y0_backup, y1, y1_backup) \<Rightarrow>
              snd (reversible_grad add_to_prefix fn pullback (name_cache c)
                     (c\<lparr>name_cache := nc\<rparr>) params
                     (d_params_old, dy0, y0_backup, dy1, y1_backup)) =
              (accumulate_grads d_params_old (fst (pullback params x1 dy1)), dy1,
               x0, snd (pullback params x1 dy1) + dy0, x1))"
  using assms by (simp add: reversible_def reversible_grad_def Let_def case_prod_beta)

theorem reversible_round_trip_witness:
  "snd (reversible append_prefix executing_ctx (\<lambda>c x i. (2 * x + of_int i, c))
          (Map.empty, 3, 0, 5, 0)) = (Map.empty, 5, 5, 15, 15)
   \<and> snd (reversible_grad append_prefix (\<lambda>c x i. (2 * x + of_int i, c))
            (\<lambda>p y d. (Map.empty, 2 * d)) () executing_ctx Map.empty
            (Map.empty, 1, 5, 1, 15)) = (Map.empty, 1, 3, 3, 5)"
  using reversible_round_trip [of executing_ctx append_prefix "\<lambda>c x i. (2 * x + of_int i, c)"
      Map.empty 3 0 5 0 "\<lambda>p y d. (Map.empty, 2 * d)" "()" Map.empty 1 1]
  by (simp add: executing_ctx_def append_prefix_def reversible_def reversible_grad_def
      base_def accumulate_grads_def)

text \<open>
  Claim C2, as amended. \<^verbatim>\<open>revnet_out\<close> returns \<open>x0 + x1\<close>. Its backward rule returns
  the incoming gradient for the two rails and, in the two backup positions, the rails
  \<open>x0\<close> and \<open>x1\<close> themselves; the arguments \<open>x0_back\<close> and \<open>x1_back\<close> are not read. The
  result has the stored backups in the backup positions exactly when each rail equals
  its backup.
\<close>

theorem revnet_out_grad_returns_rails:
  "revnet_out (x0, x0_back, x1, x1_back) = x0 + x1
   \<and> revnet_out_grad (x0, x0_back, x1, x1_back) dy = (dy, x0, dy, x1)
   \<and> (revnet_out_grad (x0, x0_back, x1, x1_back) dy = (dy, x0_back, dy, x1_back)
        \<longleftrightarrow> x0 = x0_back \<and> x1 = x1_back)"
  by (auto simp add: revnet_out_def revnet_out_grad_def)

text \<open>
  Claim C2 as stated fails: on the tuple \<open>(1, 2, 3, 4)\<close> with gradient \<open>5\<close> the backward
  rule returns \<open>(5, 1, 5, 3)\<close>, not the backups \<open>2\<close> and \<open>4\<close>.
\<close>

theorem revnet_out_grad_backups_counterexample:
  "revnet_out_grad (1 :: int, 2, 3, 4) 5 = (5, 1, 5, 3)
   \<and> revnet_out_grad (1 :: int, 2, 3, 4) 5 \<noteq> (5, 2, 5, 4)"
  by (simp add: revnet_out_grad_def)

text \<open>
  Claim C6. For a momentum coefficient \<open>\<beta>\<close> in \<open>(0, 1)\<close>, every depth index and every
  rail value \<open>x\<close>, the main transform calls the wrapped block function on
  \<open>x * (1 - \<beta>) / \<beta> ^ (idx + 1)\<close>, and the side transform returns \<open>x * \<beta> ^ idx\<close> and
  calls no block function: it hands back the context it was given. The divisor
  \<open>\<beta> ^ (idx + 1)\<close> is not zero.
\<close>

theorem momentumnet_scaling:
  assumes "0 < momentumnet_beta (model c)" and "momentumnet_beta (model c) < 1"
  shows "momentumnet_main c fn sub_ctx x i =
           fn sub_ctx (((1 - momentumnet_beta (model c)) / momentumnet_beta (model c) powi (i + 1))
                         *\<^sub>R x)
       \<and> momentumnet_side c sub_ctx x i = ((momentumnet_beta (model c) powi i) *\<^sub>R x, sub_ctx)
       \<and> momentumnet_beta (model c) powi (i + 1) \<noteq> 0"
  using assms
  by (simp add: momentumnet_main_def momentumnet_side_def divide_inverse mult.commute)

theorem momentumnet_scaling_witness:
  "momentumnet_main executing_ctx (\<lambda>c x. (x + 1, c)) executing_ctx 3 1 = (7, executing_ctx)
   \<and> momentumnet_side executing_ctx executing_ctx 3 2 = (3 / 4, executing_ctx)"
  using momentumnet_scaling [of executing_ctx "\<lambda>c x. (x + 1, c)" executing_ctx 3 1]
    momentumnet_scaling [of executing_ctx "\<lambda>c x. (x + 1, c)" executing_ctx 3 2]
  by (simp add: executing_ctx_def power_int_def power2_eq_square)

section \<open>Properties of the rails\<close>



section \<open>Properties of the collective layer\<close>

lemma concat_slices:
  "concat (map (\<lambda>i. take k (drop (i * k) ys)) [0..<n]) = take (n * k) ys"
proof (induction n)
  case 0
  show ?case by simp
next
  case (Suc n)
  have "take (n * k) ys @ take k (drop (n * k) ys) = take (n * k + k) ys"
    by (simp add: take_add)
  with Suc show ?case by (simp add: add.commute)
qed

lemma length_concat_equal:
  assumes "\<forall>g\<in>set gs. length g = k"
  shows "length (concat gs) = length gs * k"
  using assms by (induction gs) simp_all

text \<open>
  Claim C3. Let a group of \<open>N \<ge> 1\<close> workers hold tensors of the same size \<open>d\<close> along the
  sharded dimension, \<open>N\<close> dividing \<open>d\<close>. Forward, worker \<open>i\<close> obtains the entries
  \<open>i * (d / N), \<dots>, (i + 1) * (d / N) - 1\<close> of the sum of the workers' tensors: \<open>d / N\<close>
  entries each, entry \<open>j\<close> of the shard being entry \<open>i * (d / N) + j\<close> of the sum, and the
  shards of the workers \<open>0, \<dots>, N - 1\<close> laid end to end are the whole sum, so that they
  are disjoint and cover it. Backward, when every worker
  receives a gradient of the size \<open>d / N\<close> of its shard, every worker obtains the
  gradients of all workers laid end to end, a tensor of the size \<open>d\<close> of its input.
\<close>

theorem psum_scatter_shards:
  assumes "inputs \<noteq> []" and "\<forall>x\<in>set inputs. length x = d" and "length inputs dvd d"
    and "length grads = length inputs" and "\<forall>g\<in>set grads. length g = d div length inputs"
  shows "(\<forall>j<d. psum inputs ! j = sum_list (map (\<lambda>x. x ! j) inputs))
       \<and> length (psum inputs) = d
       \<and> (\<forall>i<length inputs.
            psum_scatter inputs i =
              Inr (take (d div length inputs) (drop (i * (d div length inputs)) (psum inputs)))
          \<and> length (take (d div length inputs) (drop (i * (d div length inputs)) (psum inputs)))
              = d div length inputs
          \<and> (\<forall>j<d div length inputs.
                take (d div length inputs) (drop (i * (d div length inputs)) (psum inputs)) ! j
                = psum inputs ! (i * (d div length inputs) + j)))
       \<and> concat (map (\<lambda>i. take (d div length inputs)
                             (drop (i * (d div length inputs)) (psum inputs)))
                   [0..<length inputs]) = psum inputs
       \<and> (\<forall>i<length inputs. \<forall>inp\<in>set inputs.
            psum_scatter_grad inp grads i = Inr (concat grads) \<and> length (concat grads) = d)"
proof -
  define n where "n = length inputs"
  define k where "k = d div n"
  have npos: "0 < n" using assms(1) by (simp add: n_def)
  have hd: "length (hd inputs) = d" using assms(1,2) by simp
  have nk: "n * k = d" using assms(3) by (simp add: k_def n_def)
  have len: "length (psum inputs) = d" by (simp add: psum_def hd)
  have entries: "\<forall>j<d. psum inputs ! j = sum_list (map (\<lambda>x. x ! j) inputs)"
    by (simp add: psum_def hd)
  have all: "list_all (\<lambda>x. length x = length (hd inputs)) inputs"
    using assms(2) by (simp add: hd list_all_iff)
  have mod: "length (hd inputs) mod length inputs = 0"
    using assms(3) by (simp add: hd)
  have fwd: "psum_scatter inputs i = Inr (take k (drop (i * k) (psum inputs)))" if "i < n" for i
    using that all mod by (simp add: psum_scatter_def lax_psum_scatter_def hd k_def n_def)
  have shard: "length (take k (drop (i * k) (psum inputs))) = k" if "i < n" for i
  proof -
    have "Suc i \<le> n" using that by simp
    then have "Suc i * k \<le> n * k" by (rule mult_le_mono1)
    then have "i * k + k \<le> d" using nk by simp
    then show ?thesis by (simp add: len)
  qed
  have entry: "take k (drop (i * k) (psum inputs)) ! j = psum inputs ! (i * k + j)"
    if "i < n" "j < k" for i j
  proof -
    have "Suc i \<le> n" using that(1) by simp
    then have "Suc i * k \<le> n * k" by (rule mult_le_mono1)
    then have "i * k \<le> length (psum inputs)" using nk len by simp
    then show ?thesis using that(2) by simp
  qed
  have cover: "concat (map (\<lambda>i. take k (drop (i * k) (psum inputs))) [0..<n]) = psum inputs"
    using concat_slices [of k "psum inputs" n] nk len by simp
  have glen: "length (concat grads) = d"
    using length_concat_equal [of grads k] assms(4,5) nk by (simp add: k_def n_def)
  have bwd: "psum_scatter_grad inp grads i = Inr (concat grads)"
    if "i < n" "inp \<in> set inputs" for i inp
    using that assms(2,4) glen
    by (simp add: psum_scatter_grad_def lax_all_gather_def reshape_rows_def n_def)
  show ?thesis
    using entries len fwd shard entry cover bwd glen
    unfolding k_def n_def by (intro conjI allI impI ballI) blast+
qed

theorem psum_scatter_shards_witness:
  "psum [[1, 2, 3, 4], [10, 20, 30, 40 :: int]] = [11, 22, 33, 44]
   \<and> psum_scatter [[1, 2, 3, 4], [10, 20, 30, 40 :: int]] 0 = Inr [11, 22]
   \<and> psum_scatter [[1, 2, 3, 4], [10, 20, 30, 40 :: int]] 1 = Inr [33, 44]
   \<and> psum_scatter_grad [10, 20, 30, 40 :: int] [[5, 6], [7, 8]] 1 = Inr [5, 6, 7, 8]"
proof -
  have h1: "[[1, 2, 3, 4], [10, 20, 30, 40 :: int]] \<noteq> []" by simp
  have h2: "\<forall>x\<in>set [[1, 2, 3, 4], [10, 20, 30, 40 :: int]]. length x = 4" by simp
  have h3: "length [[1, 2, 3, 4], [10, 20, 30, 40 :: int]] dvd (4 :: nat)" by code_simp
  have h4: "length [[5, 6], [7, 8 :: int]] = length [[1, 2, 3, 4], [10, 20, 30, 40 :: int]]"
    by simp
  have h5: "\<forall>g\<in>set [[5, 6], [7, 8 :: int]].
      length g = 4 div length [[1, 2, 3, 4], [10, 20, 30, 40 :: int]]" by code_simp
  have bwd: "psum_scatter_grad [10, 20, 30, 40 :: int] [[5, 6], [7, 8]] 1 =
      Inr (concat [[5, 6], [7, 8]])"
    using psum_scatter_shards [OF h1 h2 h3 h4 h5] by simp
  have fwd: "psum [[1, 2, 3, 4], [10, 20, 30, 40 :: int]] = [11, 22, 33, 44]
      \<and> psum_scatter [[1, 2, 3, 4], [10, 20, 30, 40 :: int]] 0 = Inr [11, 22]
      \<and> psum_scatter [[1, 2, 3, 4], [10, 20, 30, 40 :: int]] 1 = Inr [33, 44]"
    by code_simp
  from bwd fwd show ?thesis by simp
qed

section \<open>Properties of the embedding lookup\<close>

lemma py_range_0: "py_range 0 n = map int [0..<nat n]"
  by (auto simp add: py_range_def list_eq_iff_nth_eq)

lemma one_hot_rows:
  "one_hot inp n = map (\<lambda>token. map (\<lambda>j. token = int j) [0..<nat n]) inp"
  by (simp add: one_hot_def py_range_0 comp_def)

lemma count_hot:
  "length (filter (\<lambda>j. token = int j) [0..<m]) = (if 0 \<le> token \<and> token < int m then 1 else 0)"
  by (induction m) auto

lemma select_row:
  fixes E :: "'r::real_vector list"
  shows "m \<le> length E \<Longrightarrow>
    sum_list (map (\<lambda>i. of_bool (token = int i) *\<^sub>R E ! i) [0..<m]) =
      (if 0 \<le> token \<and> token < int m then E ! nat token else 0)"
  by (induction m) auto

lemma zip_upt_nth: "length E = m \<Longrightarrow> zip (map f [0..<m]) E = map (\<lambda>i. (f i, E ! i)) [0..<m]"
  by (auto simp add: list_eq_iff_nth_eq)

lemma matmul_one_hot:
  fixes E :: "'r::real_vector list"
  assumes "length E = nat n"
  shows "matmul (map (map of_bool) (one_hot inp n)) E =
           Inr (map (\<lambda>token. if 0 \<le> token \<and> token < n then E ! nat token else 0) inp)"
proof -
  have rows: "list_all (\<lambda>row. length row = length E) (map (map of_bool) (one_hot inp n))"
    using assms by (simp add: one_hot_rows list_all_iff)
  have row: "sum_list (map2 (\<lambda>a r. a *\<^sub>R r) (map (\<lambda>j. of_bool (token = int j)) [0..<nat n]) E) =
      (if 0 \<le> token \<and> token < n then E ! nat token else 0)" for token
  proof -
    have "zip (map (\<lambda>j. of_bool (token = int j)) [0..<nat n]) E =
          map (\<lambda>i. (of_bool (token = int i) :: real, E ! i)) [0..<nat n]"
      using assms by (rule zip_upt_nth)
    then show ?thesis
      using select_row [of "nat n" E token] assms by (simp add: comp_def)
  qed
  show ?thesis
    using rows by (simp add: matmul_def one_hot_rows comp_def row cong: if_cong)
qed

text \<open>
  Claim C10. For every token id and every size, the row that \<^verbatim>\<open>one_hot\<close> produces
  has \<open>size\<close> entries, the entry at position \<open>j\<close> being hot exactly when the id equals
  \<open>j\<close>: one hot entry when the id lies in \<open>[0, size)\<close> and none otherwise. In executing
  mode, with the embedding table \<open>E\<close> of \<open>vocab_size\<close> slices in the store,
  \<^verbatim>\<open>input_embed\<close> returns without error, mapping a token in the vocabulary to its
  slice of \<open>E\<close> and every other token to the zero embedding.
\<close>

theorem one_hot_input_embed:
  fixes J :: "('t, 'r::real_vector, 'k) jax"
  assumes "c1 = add_to_prefix c ''input_embed'' None"
    and "\<not> is_initializing c1"
    and "parameters c1 (prefixed_name add_to_prefix c1 ''inp_embd'') = Some w"
    and "E = jnp_unstack J (jnp_astype J w (computation_dtype (model c1)))"
    and "length E = nat (vocab_size c1)"
  shows "one_hot inp n = map (\<lambda>token. map (\<lambda>j. token = int j) [0..<nat n]) inp
       \<and> map (\<lambda>row. length (filter (\<lambda>b. b) row)) (one_hot inp n) =
           map (\<lambda>token. if 0 \<le> token \<and> token < n then 1 else 0) inp
       \<and> input_embed J add_to_prefix c inp =
           Inr (Inr (map (\<lambda>token. if 0 \<le> token \<and> token < vocab_size c1 then E ! nat token else 0)
                       inp), c1)"
proof -
  have hot: "map (\<lambda>row. length (filter (\<lambda>b. b) row)) (one_hot inp n) =
           map (\<lambda>token. if 0 \<le> token \<and> token < n then 1 else 0) inp"
    using count_hot [of _ "nat n"] by (simp add: one_hot_rows comp_def filter_map)
  have "get_param J add_to_prefix c1 ''inp_embd''
          [vocab (sizes c1), heads (sizes c1), features_per_head (sizes c1)]
          None None 2 1 1 1 None None =
        Inr (jnp_astype J w (computation_dtype (model c1)), c1)"
    using assms(3) by (simp add: get_param_def Let_def)
  then have "input_embed J add_to_prefix c inp =
           Inr (Inr (map (\<lambda>token. if 0 \<le> token \<and> token < vocab_size c1 then E ! nat token else 0)
                       inp), c1)"
    using assms(1,2,4,5) matmul_one_hot [of E "vocab_size c1" inp]
    by (simp add: input_embed_def Let_def)
  with hot show ?thesis by (simp add: one_hot_rows)
qed

theorem one_hot_input_embed_witness:
  "one_hot [1, 7, - 1] 3 = [[False, True, False], [False, False, False], [False, False, False]]
   \<and> input_embed list_jax append_prefix
       (store_ctx [''/input_embed/inp_embd/'' \<mapsto> [10, 20, 30]] Map.empty) [1, 7, - 1] =
     Inr (Inr [20, 0, 0],
          (store_ctx [''/input_embed/inp_embd/'' \<mapsto> [10, 20, 30]] Map.empty)
            \<lparr>global_prefix := ''/input_embed/''\<rparr>)"
  using one_hot_input_embed [of
      "(store_ctx [''/input_embed/inp_embd/'' \<mapsto> [10, 20, 30]] Map.empty)\<lparr>global_prefix := ''/input_embed/''\<rparr>"
      append_prefix "store_ctx [''/input_embed/inp_embd/'' \<mapsto> [10, 20, 30]] Map.empty"
      "[10, 20, 30]" "[10, 20, 30]" list_jax "[1, 7, - 1]" 3]
  by (simp add: store_ctx_def append_prefix_def prefixed_name_def list_jax_def upt_rec)

section \<open>Properties of the loss\<close>

lemma lower_bound_sum:
  fixes x :: real
  assumes "\<forall>y\<in>set ys. x \<le> y"
  shows "real (length ys) * x \<le> sum_list ys"
  using assms by (induction ys) (auto simp add: algebra_simps intro: add_mono)

lemma descending_nth:
  fixes ds :: "real list"
  assumes "sorted (rev ds)" "i \<le> j" "j < length ds"
  shows "ds ! j \<le> ds ! i"
proof -
  have "rev ds ! (length ds - 1 - j) \<le> rev ds ! (length ds - 1 - i)"
    using assms by (intro sorted_nth_mono) auto
  then show ?thesis using assms by (simp add: rev_nth)
qed

lemma mean_step:
  fixes ds :: "real list"
  assumes "sorted (rev ds)" "0 < k" "k < length ds"
  shows "sum_list (take (Suc k) ds) / real (Suc k) \<le> sum_list (take k ds) / real k"
proof -
  have "real (length (take k ds)) * (ds ! k) \<le> sum_list (take k ds)"
  proof (rule lower_bound_sum, rule ballI)
    fix y assume "y \<in> set (take k ds)"
    then obtain i where "i < k" "y = ds ! i"
      using assms(3) by (auto simp add: in_set_conv_nth)
    then show "ds ! k \<le> y" using descending_nth [OF assms(1), of i k] assms(3) by simp
  qed
  then have "real k * (ds ! k) \<le> sum_list (take k ds)" using assms(3) by simp
  moreover have "sum_list (take (Suc k) ds) = sum_list (take k ds) + ds ! k"
    using assms(3) by (simp add: take_Suc_conv_app_nth)
  ultimately show ?thesis using assms(2) by (simp add: field_simps)
qed

lemma mean_antimono:
  fixes ds :: "real list"
  assumes "sorted (rev ds)" "0 < j" "j \<le> k" "k \<le> length ds"
  shows "sum_list (take k ds) / real k \<le> sum_list (take j ds) / real j"
  using assms(3,4)
proof (induction k rule: dec_induct)
  case base
  show ?case by simp
next
  case (step n)
  have "sum_list (take (Suc n) ds) / real (Suc n) \<le> sum_list (take n ds) / real n"
    using mean_step [OF assms(1), of n] step assms(2) by simp
  with step show ?case by simp
qed

lemma sum_list_insort:
  fixes x :: real
  shows "sum_list (insort x xs) = x + sum_list xs"
  by (induction xs) auto

lemma sum_list_sort:
  fixes xs :: "real list"
  shows "sum_list (sort xs) = sum_list xs"
  by (induction xs) (auto simp add: sort_key_simps sum_list_insort)

lemma exact_mean_of_worst:
  assumes "jnp_sum A = sum_list" "jnp_float A = (\<lambda>x. x)"
  shows "mean_of_worst A k ls = sum_list (take k (rev (sort ls))) / real k"
    and "mean_of_all A ls = sum_list ls / real (length ls)"
  using assms by (simp_all add: mean_of_worst_def mean_of_all_def)

lemma mean_of_worst_antimono:
  assumes "jnp_sum A = sum_list" "jnp_float A = (\<lambda>x. x)"
  shows "0 < j \<Longrightarrow> j \<le> k \<Longrightarrow> k \<le> length ls \<Longrightarrow> mean_of_worst A k ls \<le> mean_of_worst A j ls"
  unfolding exact_mean_of_worst(1) [OF assms] by (rule mean_antimono) simp_all

lemma mean_of_worst_all:
  assumes "jnp_sum A = sum_list" "jnp_float A = (\<lambda>x. x)"
  shows "mean_of_worst A (length ls) ls = mean_of_all A ls"
  unfolding exact_mean_of_worst [OF assms] by (simp add: sum_list_rev sum_list_sort)

lemma top_k_mono:
  assumes "mono (py_float A)" "0 < loss_top_snap tr" "p \<le> p'"
  shows "top_k A sz (tr\<lparr>loss_top_p := p\<rparr>) \<le> top_k A sz (tr\<lparr>loss_top_p := p'\<rparr>)"
proof -
  define s where "s = loss_top_snap tr"
  have "real (batch sz) * p \<le> real (batch sz) * p'"
    using assms(3) by (simp add: mult_left_mono)
  then have "py_float A (real (batch sz) * p) \<le> py_float A (real (batch sz) * p')"
    using assms(1) by (simp add: monoD)
  then have "py_float A (real (batch sz) * p) / real_of_int s
      \<le> py_float A (real (batch sz) * p') / real_of_int s"
    using assms(2) by (simp add: divide_right_mono s_def)
  then have "py_float A (py_float A (real (batch sz) * p) / real_of_int s)
      \<le> py_float A (py_float A (real (batch sz) * p') / real_of_int s)"
    using assms(1) by (simp add: monoD)
  then have "\<lceil>py_float A (py_float A (real (batch sz) * p) / real_of_int s)\<rceil>
      \<le> \<lceil>py_float A (py_float A (real (batch sz) * p') / real_of_int s)\<rceil>"
    by (rule ceiling_mono)
  then show ?thesis using assms(2) by (simp add: top_k_def mult_right_mono s_def)
qed

text \<open>
  The rounding decides the number of averaged examples. The float nearest to \<open>1/10\<close> is
  \<open>3602879701896397 / 2 ^ 55\<close>, a little more than \<open>1/10\<close>. Ten times it is \<open>1 + 2 ^ - 54\<close>,
  whose exact ceiling is \<open>2\<close>; between \<open>1\<close> and \<open>2\<close> floats are \<open>2 ^ - 52\<close> apart, the
  product rounds to \<open>1\<close>, and \<^verbatim>\<open>math.ceil(10 * 0.1 / 1)\<close> is \<open>1\<close>.
\<close>

lemma top_k_rounding_example:
  "top_k exact_arithmetic (example_sizes 10)
     (example_training\<lparr>loss_top_p := 3602879701896397 / 2 ^ 55\<rparr>) = 2
   \<and> top_k (spaced_floats 52) (example_sizes 10)
       (example_training\<lparr>loss_top_p := 3602879701896397 / 2 ^ 55\<rparr>) = 1"
proof -
  have exact: "\<lceil>(10 :: real) * (3602879701896397 / 2 ^ 55)\<rceil> = 2"
    by (simp add: ceiling_eq_iff)
  have rounded: "round ((10 :: real) * (3602879701896397 / 2 ^ 55) * 2 ^ 52) = 2 ^ 52"
    unfolding round_def by (simp add: floor_eq_iff)
  show ?thesis
    using exact rounded
    by (simp add: top_k_def exact_arithmetic_def spaced_floats_def example_sizes_def
        example_training_def)
qed

lemma compute_value:
  assumes "unreduced params inp = Inr ls" "length ls = batch sz" "0 < batch sz"
    and "0 < loss_top_snap tr" "0 < top_k A sz tr"
  shows "compute A sz tr unreduced params inp =
           Inr (if loss_top_p tr < 1 \<and> top_k A sz tr < int (batch sz)
                then mean_of_worst A (nat (top_k A sz tr)) ls
                else mean_of_all A ls,
                mean_of_all A ls)"
proof -
  define k where "k = top_k A sz tr"
  have pos: "0 < k" unfolding k_def by (rule assms(5))
  have top: "lax_top_k ls k = Inr (take (nat k) (rev (sort ls)))" if "k < int (batch sz)"
    using that pos assms(2) by (simp add: lax_top_k_def)
  have mean: "jnp_true_divide A (jnp_sum A (take (nat k) (rev (sort ls)))) k =
      Inr (mean_of_worst A (nat k) ls)"
    using pos by (simp add: jnp_true_divide_def mean_of_worst_def)
  have loss: "jnp_true_divide A (jnp_sum A ls) (int (batch sz)) = Inr (mean_of_all A ls)"
    using assms(2,3) by (simp add: jnp_true_divide_def mean_of_all_def)
  show ?thesis
    using assms(1,4) by (simp add: compute_def Let_def loss top mean flip: k_def)
qed

text \<open>
  Claim C5, as amended. Let the batch hold \<open>batch\<close> per-example losses, \<open>batch > 0\<close> and
  \<open>snap > 0\<close>, and let \<open>k\<close> be the number the code computes,
  \<^verbatim>\<open>math.ceil(batch * p / snap) * snap\<close> with the product and the quotient rounded as
  Python floats; let \<open>k \<ge> 1\<close>. The top loss that \<^verbatim>\<open>compute\<close> returns is the mean, as the
  array arithmetic computes it, of exactly the \<open>k\<close> worst losses when \<open>p < 1\<close> and
  \<open>k < batch\<close>, and the mean of all \<open>batch\<close> losses otherwise; the second component is
  the full-batch mean. As \<open>p\<close> decreases, all else fixed, the number \<open>k\<close> does not
  increase, rounding being monotone. If the sums and quotients of the losses are exact,
  the top loss does not decrease as \<open>p\<close> decreases; nothing is stated about the order
  of two rounded means.
\<close>

theorem top_loss_grows_as_p_shrinks:
  assumes "unreduced params inp = Inr ls" and "length ls = batch sz" and "0 < batch sz"
    and "0 < loss_top_snap tr" and "mono (py_float A)"
    and "0 < top_k A sz (tr\<lparr>loss_top_p := p\<rparr>)" and "p \<le> p'"
  shows "compute A sz (tr\<lparr>loss_top_p := p\<rparr>) unreduced params inp =
           Inr (if p < 1 \<and> top_k A sz (tr\<lparr>loss_top_p := p\<rparr>) < int (batch sz)
                then mean_of_worst A (nat (top_k A sz (tr\<lparr>loss_top_p := p\<rparr>))) ls
                else mean_of_all A ls,
                mean_of_all A ls)
       \<and> top_k A sz (tr\<lparr>loss_top_p := p\<rparr>) \<le> top_k A sz (tr\<lparr>loss_top_p := p'\<rparr>)
       \<and> (jnp_sum A = sum_list \<and> jnp_float A = (\<lambda>x. x) \<longrightarrow>
            (\<exists>t t' l. compute A sz (tr\<lparr>loss_top_p := p\<rparr>) unreduced params inp = Inr (t, l)
               \<and> compute A sz (tr\<lparr>loss_top_p := p'\<rparr>) unreduced params inp = Inr (t', l)
               \<and> t' \<le> t))"
proof -
  define k where "k = top_k A sz (tr\<lparr>loss_top_p := p\<rparr>)"
  define k' where "k' = top_k A sz (tr\<lparr>loss_top_p := p'\<rparr>)"
  define n where "n = batch sz"
  have kk': "k \<le> k'" unfolding k_def k'_def using assms(5,4,7) by (rule top_k_mono)
  have kpos: "0 < k" unfolding k_def by (rule assms(6))
  have k'pos: "0 < k'" using kpos kk' by simp
  have v: "compute A sz (tr\<lparr>loss_top_p := p\<rparr>) unreduced params inp =
      Inr (if p < 1 \<and> k < int n then mean_of_worst A (nat k) ls else mean_of_all A ls,
           mean_of_all A ls)"
    using compute_value [of unreduced params inp ls sz "tr\<lparr>loss_top_p := p\<rparr>" A] assms(1-4) kpos
    by (simp add: k_def n_def)
  have v': "compute A sz (tr\<lparr>loss_top_p := p'\<rparr>) unreduced params inp =
      Inr (if p' < 1 \<and> k' < int n then mean_of_worst A (nat k') ls else mean_of_all A ls,
           mean_of_all A ls)"
    using compute_value [of unreduced params inp ls sz "tr\<lparr>loss_top_p := p'\<rparr>" A] assms(1-4) k'pos
    by (simp add: k'_def n_def)
  have len: "length ls = n" using assms(2) by (simp add: n_def)
  have le: "(if p' < 1 \<and> k' < int n then mean_of_worst A (nat k') ls else mean_of_all A ls)
      \<le> (if p < 1 \<and> k < int n then mean_of_worst A (nat k) ls else mean_of_all A ls)"
    if exact: "jnp_sum A = sum_list" "jnp_float A = (\<lambda>x. x)"
  proof -
    have all: "mean_of_all A ls = mean_of_worst A n ls"
      using mean_of_worst_all [OF exact, of ls] len by simp
    consider (both) "p' < 1 \<and> k' < int n" | (first) "\<not> (p' < 1 \<and> k' < int n)" "p < 1 \<and> k < int n"
      | (none) "\<not> (p' < 1 \<and> k' < int n)" "\<not> (p < 1 \<and> k < int n)" by blast
    then show ?thesis
    proof cases
      case both
      then have "p < 1 \<and> k < int n" using assms(7) kk' by simp
      moreover have "mean_of_worst A (nat k') ls \<le> mean_of_worst A (nat k) ls"
        using kpos kk' both len by (intro mean_of_worst_antimono [OF exact]) auto
      ultimately show ?thesis using both by auto
    next
      case first
      have "mean_of_worst A n ls \<le> mean_of_worst A (nat k) ls"
        using kpos first(2) len by (intro mean_of_worst_antimono [OF exact]) auto
      then show ?thesis using first all by auto
    next
      case none
      then show ?thesis by auto
    qed
  qed
  have one: "compute A sz (tr\<lparr>loss_top_p := p\<rparr>) unreduced params inp =
           Inr (if p < 1 \<and> top_k A sz (tr\<lparr>loss_top_p := p\<rparr>) < int (batch sz)
                then mean_of_worst A (nat (top_k A sz (tr\<lparr>loss_top_p := p\<rparr>))) ls
                else mean_of_all A ls,
                mean_of_all A ls)"
    using v by (simp add: k_def n_def)
  have two: "top_k A sz (tr\<lparr>loss_top_p := p\<rparr>) \<le> top_k A sz (tr\<lparr>loss_top_p := p'\<rparr>)"
    using kk' by (simp add: k_def k'_def)
  have three: "\<exists>t t' l. compute A sz (tr\<lparr>loss_top_p := p\<rparr>) unreduced params inp = Inr (t, l)
               \<and> compute A sz (tr\<lparr>loss_top_p := p'\<rparr>) unreduced params inp = Inr (t', l)
               \<and> t' \<le> t"
    if "jnp_sum A = sum_list \<and> jnp_float A = (\<lambda>x. x)"
    using v v' le that by simp
  show ?thesis using one two three by (intro conjI impI)
qed

theorem top_loss_grows_as_p_shrinks_witness:
  "compute exact_arithmetic (example_sizes 4) (example_training\<lparr>loss_top_p := 1 / 2\<rparr>)
     (\<lambda>params inp. Inr [1, 3, 2, 4]) () () = Inr (7 / 2, 5 / 2)
   \<and> compute exact_arithmetic (example_sizes 4) (example_training\<lparr>loss_top_p := 3 / 4\<rparr>)
       (\<lambda>params inp. Inr [1, 3, 2, 4]) () () = Inr (3, 5 / 2)
   \<and> top_k exact_arithmetic (example_sizes 4) (example_training\<lparr>loss_top_p := 1 / 2\<rparr>) = 2
   \<and> top_k exact_arithmetic (example_sizes 4) (example_training\<lparr>loss_top_p := 3 / 4\<rparr>) = 3"
  using top_loss_grows_as_p_shrinks [of "\<lambda>params inp. Inr [1, 3, 2, 4]" "()" "()" "[1, 3, 2, 4]"
      "example_sizes 4" example_training exact_arithmetic "1 / 2" "3 / 4"]
  by (simp add: example_sizes_def example_training_def exact_arithmetic_def compute_def
      jnp_true_divide_def lax_top_k_def top_k_def mono_def Let_def)

text \<open>
  Claim C5 as stated fails. On the losses \<open>[1, 3]\<close> with \<open>snap = 1\<close>, lowering \<open>p\<close> from
  \<open>3/4\<close> to \<open>1/2\<close> raises the top loss from \<open>2\<close> to \<open>3\<close>. On three losses with
  \<open>snap = 2\<close> and \<open>p = 3/4\<close> the count \<open>ceil(batch * p / snap) * snap\<close> is \<open>4\<close>, and the
  top loss is the mean \<open>3\<close> of the three losses there are. Every number that occurs is
  a small multiple of a power of two, so no operation rounds in either floating-point
  format and the exact arithmetic is the one of the code.
\<close>

theorem top_loss_non_increasing_counterexample:
  "compute exact_arithmetic (example_sizes 2) (example_training\<lparr>loss_top_p := 3 / 4\<rparr>)
     (\<lambda>params inp. Inr [1, 3]) () () = Inr (2, 2)
   \<and> compute exact_arithmetic (example_sizes 2) (example_training\<lparr>loss_top_p := 1 / 2\<rparr>)
       (\<lambda>params inp. Inr [1, 3]) () () = Inr (3, 2)
   \<and> top_k exact_arithmetic (example_sizes 3)
       (example_training\<lparr>loss_top_p := 3 / 4, loss_top_snap := 2\<rparr>) = 4
   \<and> compute exact_arithmetic (example_sizes 3)
       (example_training\<lparr>loss_top_p := 3 / 4, loss_top_snap := 2\<rparr>)
       (\<lambda>params inp. Inr [1, 2, 6]) () () = Inr (3, 3)"
  by (simp add: example_sizes_def example_training_def exact_arithmetic_def compute_def
      jnp_true_divide_def lax_top_k_def top_k_def Let_def)

section \<open>Properties of the streaming monitor\<close>

subsection \<open>Medians of descending windows\<close>

lemma sort_descending:
  fixes zs :: "real list"
  assumes "sorted_wrt (\<ge>) zs"
  shows "sort zs = rev zs"
proof (rule properties_for_sort)
  show "mset (rev zs) = mset zs" by simp
  show "sorted (rev zs)" using assms by (simp add: sorted_wrt_rev)
qed

lemma np_median_descending:
  fixes zs :: "real list"
  assumes "sorted_wrt (\<ge>) zs" "zs \<noteq> []"
  shows "np_median zs = Inr ((zs ! ((length zs - 1) div 2) + zs ! (length zs div 2)) / 2)"
proof -
  define n where "n = length zs"
  have n: "0 < n" using assms(2) by (simp add: n_def)
  show ?thesis
  proof (cases "odd n")
    case True
    then have "n - 1 - n div 2 = (n - 1) div 2" "n div 2 = (n - 1) div 2" "n div 2 < n"
      using n by (auto elim!: oddE)
    then show ?thesis
      using True n by (simp add: np_median_def Let_def sort_descending [OF assms(1)] rev_nth flip: n_def)
  next
    case False
    then have "n - 1 - (n div 2 - 1) = n div 2" "n - 1 - n div 2 = (n - 1) div 2" "n div 2 < n"
      "n div 2 - 1 < n"
      using n by (auto elim!: evenE)
    then show ?thesis
      using False n by (simp add: np_median_def Let_def sort_descending [OF assms(1)] rev_nth flip: n_def)
  qed
qed

lemma median_window_le:
  fixes ls :: "real list"
  assumes "sorted_wrt (\<ge>) (ls @ [x])" "ls \<noteq> []" "j \<le> length ls"
  shows "((drop j (ls @ [x])) ! ((length (drop j (ls @ [x])) - 1) div 2)
          + (drop j (ls @ [x])) ! (length (drop j (ls @ [x])) div 2)) / 2
       \<le> (ls ! ((length ls - 1) div 2) + ls ! (length ls div 2)) / 2"
proof -
  define zs where "zs = ls @ [x]"
  define n where "n = length ls"
  have desc: "sorted (rev zs)" using assms(1) unfolding zs_def sorted_wrt_rev .
  have n: "0 < n" "j \<le> n" using assms by (simp_all add: n_def)
  have len: "length zs = Suc n" by (simp add: zs_def n_def)
  have a: "zs ! (j + (n - j) div 2) \<le> zs ! ((n - 1) div 2)"
    using n len by (intro sorted_rev_nth_mono [OF desc]) auto
  have b: "zs ! (j + (Suc n - j) div 2) \<le> zs ! (n div 2)"
    using n len by (intro sorted_rev_nth_mono [OF desc]) auto
  have "(n - 1) div 2 < n" "n div 2 < n" using n by auto
  then have c: "zs ! ((n - 1) div 2) = ls ! ((n - 1) div 2)" "zs ! (n div 2) = ls ! (n div 2)"
    by (simp_all add: zs_def nth_append n_def)
  have d: "drop j zs ! ((length (drop j zs) - 1) div 2) = zs ! (j + (n - j) div 2)"
    "drop j zs ! (length (drop j zs) div 2) = zs ! (j + (Suc n - j) div 2)"
    using n len by simp_all
  show ?thesis
    using a b c d by (simp add: zs_def n_def)
qed

subsection \<open>One call\<close>

lemma py_slice_last:
  "0 \<le> m \<Longrightarrow> py_slice_from (- m) ys = (if m = 0 then ys else drop (length ys - nat m) ys)"
  by (auto simp add: py_slice_from_def max_def nat_diff_distrib' nat_add_distrib)

lemma py_slice_drop: "0 \<le> m \<Longrightarrow> \<exists>j\<le>length ys. py_slice_from (- m) (ys @ [y]) = drop j (ys @ [y])"
proof (cases "m = 0")
  case True
  then have "py_slice_from (- m) (ys @ [y]) = drop 0 (ys @ [y])" by (simp add: py_slice_from_def)
  then show ?thesis by blast
next
  case False
  assume "0 \<le> m"
  with False have "py_slice_from (- m) (ys @ [y]) = drop (length (ys @ [y]) - nat m) (ys @ [y])"
    "length (ys @ [y]) - nat m \<le> length ys"
    by (auto simp add: py_slice_last)
  then show ?thesis by blast
qed

lemma py_index_first: "ys \<noteq> [] \<Longrightarrow> py_index ys 0 = Inr (hd ys)"
  by (cases ys) (simp_all add: py_index_def)

lemma py_index_last: "ys \<noteq> [] \<Longrightarrow> py_index ys (- 1) = Inr (last ys)"
  by (cases ys) (simp_all add: py_index_def last_conv_nth nat_diff_distrib')

lemma np_median_nonempty:
  assumes "ys \<noteq> []"
  shows "\<exists>v. np_median ys = Inr v"
proof -
  have "np_median ys =
      Inr (if odd (length ys) then sort ys ! (length ys div 2)
           else (sort ys ! (length ys div 2 - 1) + sort ys ! (length ys div 2)) / 2)"
    using assms by (simp add: np_median_def Let_def)
  then show ?thesis by blast
qed

lemma wandb_call_step:
  assumes "device_steps tr \<noteq> 0"
    and "py_max (map (\<lambda>s. s div device_steps tr) (median_sizes wb)) = Inr m"
    and "np_median (py_slice_from (- m) (losses self @ [loss / real_of_int (device_steps tr)])) = Inr med"
    and "py_slice_from (- m) (loss_medians self @ [med]) \<noteq> []"
  shows "\<exists>s. wandb_call tr wb self loss top_loss =
           Inr (s, self\<lparr>idx := idx self + 1,
                  losses := py_slice_from (- m) (losses self @ [loss / real_of_int (device_steps tr)]),
                  accuracies := py_slice_from (- m)
                      (accuracies self @ [top_loss / real_of_int (device_steps tr)]),
                  loss_medians := py_slice_from (- m) (loss_medians self @ [med])\<rparr>)
         \<and> (s = NotImproving \<longleftrightarrow>
              hd (py_slice_from (- m) (loss_medians self @ [med]))
              < last (py_slice_from (- m) (loss_medians self @ [med]))
                * (1 - minimum_relative_loss_change (early_stopping tr)))"
  using assms
  by (simp add: wandb_call_def Let_def py_index_first py_index_last)

lemma py_index_first_value: "py_index ys 0 = Inr v \<Longrightarrow> v = hd ys"
  by (cases ys) (simp_all add: py_index_def)

lemma py_index_last_value: "py_index ys (- 1) = Inr v \<Longrightarrow> v = last ys"
  by (cases "ys = []") (simp_all add: py_index_def last_conv_nth nat_diff_distrib' split: if_splits)

lemma wandb_call_signal:
  assumes "wandb_call tr wb self loss top_loss = Inr (s, self')"
  shows "s = NotImproving \<longleftrightarrow>
           hd (loss_medians self') < last (loss_medians self')
             * (1 - minimum_relative_loss_change (early_stopping tr))"
  using assms
  by (auto simp add: wandb_call_def Let_def split: if_splits sum.splits
      dest!: py_index_first_value py_index_last_value)

subsection \<open>The median after one more loss\<close>

lemma median_nonneg:
  fixes zs :: "real list"
  assumes "sorted_wrt (\<ge>) zs" "zs \<noteq> []" "\<forall>v\<in>set zs. 0 \<le> v" "np_median zs = Inr med"
  shows "0 \<le> med"
proof -
  have "0 < length zs" using assms(2) by simp
  then have "(length zs - 1) div 2 < length zs" "length zs div 2 < length zs"
    by arith+
  then have "0 \<le> zs ! ((length zs - 1) div 2)" "0 \<le> zs ! (length zs div 2)"
    using assms(3) by (simp_all add: nth_mem)
  then show ?thesis
    using np_median_descending [OF assms(1,2)] assms(4) by simp
qed

lemma median_after_append:
  fixes ls :: "real list"
  assumes "sorted_wrt (\<ge>) (ls @ [x])" "ls \<noteq> []" "0 \<le> m"
    and "np_median ls = Inr v" "np_median (py_slice_from (- m) (ls @ [x])) = Inr med"
  shows "med \<le> v"
proof -
  obtain j where j: "j \<le> length ls" "py_slice_from (- m) (ls @ [x]) = drop j (ls @ [x])"
    using py_slice_drop [OF assms(3), of ls x] by blast
  have desc: "sorted_wrt (\<ge>) ls" using assms(1) by (simp add: sorted_wrt_append)
  have "sorted_wrt (\<ge>) (drop j (ls @ [x]))" using assms(1) by (rule sorted_wrt_drop)
  moreover have "drop j (ls @ [x]) \<noteq> []" using j(1) by simp
  ultimately have "np_median (drop j (ls @ [x])) =
      Inr ((drop j (ls @ [x]) ! ((length (drop j (ls @ [x])) - 1) div 2)
            + drop j (ls @ [x]) ! (length (drop j (ls @ [x])) div 2)) / 2)"
    by (rule np_median_descending)
  moreover have "np_median ls = Inr ((ls ! ((length ls - 1) div 2) + ls ! (length ls div 2)) / 2)"
    using desc assms(2) by (rule np_median_descending)
  ultimately show ?thesis
    using median_window_le [OF assms(1,2) j(1)] assms(4,5) j(2) by simp
qed

subsection \<open>Runs of calls\<close>

lemma keep_last_append:
  "drop (length (drop (length A - k) A @ B) - k) (drop (length A - k) A @ B) =
   drop (length (A @ B) - k) (A @ B)"
proof (cases "length A \<le> k")
  case True
  then show ?thesis by simp
next
  case False
  define d where "d = length A - k"
  have d: "d \<le> length A" "length (drop d A @ B) - k = length B"
    "length (A @ B) - k = length B + d"
    using False by (auto simp add: d_def)
  have "drop (length B + d) (A @ B) = drop (length B) (drop d (A @ B))"
    by (simp only: drop_drop)
  also have "drop d (A @ B) = drop d A @ B" using d(1) by simp
  finally show ?thesis using d(2,3) by (simp only: d_def [symmetric])
qed

lemma py_slice_nonempty: "0 \<le> m \<Longrightarrow> py_slice_from (- m) (ys @ [y]) \<noteq> []"
  by (auto simp add: py_slice_last)

lemma py_slice_newest: "0 \<le> m \<Longrightarrow> py_slice_from (- m) ys = newest m ys"
  by (simp add: py_slice_last newest_def)

lemma newest_append:
  assumes "0 \<le> m"
  shows "newest m (newest m A @ B) = newest m (A @ B)"
proof (cases "m = 0")
  case True
  then show ?thesis by (simp add: newest_def)
next
  case False
  then show ?thesis using keep_last_append [of A "nat m" B] by (simp add: newest_def)
qed

lemma newest_Nil: "newest m [] = []"
  by (simp add: newest_def)

lemma newest_idem: "0 \<le> m \<Longrightarrow> newest m (newest m A) = newest m A"
  using newest_append [of m A "[]"] by simp

lemma map_newest: "map f (newest m ys) = newest m (map f ys)"
  by (simp add: newest_def drop_map)

lemma newest_nonempty: "0 \<le> m \<Longrightarrow> newest m (ys @ [y]) \<noteq> []"
  by (auto simp add: newest_def)

lemma length_newest:
  "0 \<le> m \<Longrightarrow> length (newest m ys) = (if m = 0 then length ys else min (length ys) (nat m))"
  by (auto simp add: newest_def)

lemma feed_windows:
  assumes "device_steps tr \<noteq> 0"
    and "py_max (map (\<lambda>s. s div device_steps tr) (median_sizes wb)) = Inr m"
    and "0 \<le> m"
    and "newest m (losses self) = losses self" and "newest m (accuracies self) = accuracies self"
    and "newest m (loss_medians self) = loss_medians self"
  shows "\<exists>ss self'. feed tr wb self xs = Inr (ss, self')
           \<and> losses self' = newest m (losses self @ fed_losses tr xs)
           \<and> accuracies self' = newest m (accuracies self @ fed_accuracies tr xs)
           \<and> map Inr (loss_medians self') =
               newest m (map Inr (loss_medians self)
                 @ map (\<lambda>i. np_median (newest m (losses self @ take (Suc i) (fed_losses tr xs))))
                     [0..<length xs])"
  using assms(4-6)
proof (induction xs arbitrary: self)
  case Nil
  then show ?case by (simp add: fed_losses_def fed_accuracies_def map_newest [symmetric])
next
  case (Cons x xs)
  obtain l t where x: "x = (l, t)" by (cases x)
  define a where "a = l / real_of_int (device_steps tr)"
  define b where "b = t / real_of_int (device_steps tr)"
  obtain med where med: "np_median (newest m (losses self @ [a])) = Inr med"
    using np_median_nonempty [OF newest_nonempty [OF assms(3)]] by blast
  define self1 where "self1 = self\<lparr>idx := idx self + 1,
      losses := newest m (losses self @ [a]),
      accuracies := newest m (accuracies self @ [b]),
      loss_medians := newest m (loss_medians self @ [med])\<rparr>"
  have med': "np_median (py_slice_from (- m) (losses self @ [l / real_of_int (device_steps tr)])) = Inr med"
    using med by (simp add: py_slice_newest [OF assms(3)] a_def)
  obtain s where call: "wandb_call tr wb self l t = Inr (s, self1)"
    using wandb_call_step [OF assms(1,2) med' py_slice_nonempty [OF assms(3)], of t]
    unfolding self1_def a_def b_def py_slice_newest [OF assms(3)] by blast
  have fix1: "newest m (losses self1) = losses self1" "newest m (accuracies self1) = accuracies self1"
    "newest m (loss_medians self1) = loss_medians self1"
    by (simp_all add: self1_def newest_idem [OF assms(3)])
  obtain ss self' where rest: "feed tr wb self1 xs = Inr (ss, self')"
    and L: "losses self' = newest m (losses self1 @ fed_losses tr xs)"
    and A: "accuracies self' = newest m (accuracies self1 @ fed_accuracies tr xs)"
    and M: "map Inr (loss_medians self') =
               newest m (map Inr (loss_medians self1)
                 @ map (\<lambda>i. np_median (newest m (losses self1 @ take (Suc i) (fed_losses tr xs))))
                     [0..<length xs])"
    using Cons.IH [OF fix1] by blast
  have "feed tr wb self (x # xs) = Inr (s # ss, self')"
    using call rest by (simp add: x)
  moreover have "losses self' = newest m (losses self @ fed_losses tr (x # xs))"
    using L newest_append [OF assms(3), of "losses self @ [a]" "fed_losses tr xs"]
    by (simp add: self1_def x a_def fed_losses_def)
  moreover have "accuracies self' = newest m (accuracies self @ fed_accuracies tr (x # xs))"
    using A newest_append [OF assms(3), of "accuracies self @ [b]" "fed_accuracies tr xs"]
    by (simp add: self1_def x b_def fed_accuracies_def)
  moreover have "map Inr (loss_medians self') =
               newest m (map Inr (loss_medians self)
                 @ map (\<lambda>i. np_median (newest m (losses self @ take (Suc i) (fed_losses tr (x # xs)))))
                     [0..<length (x # xs)])"
  proof -
    have w: "newest m (losses self1 @ ys) = newest m (losses self @ a # ys)" for ys
      using newest_append [OF assms(3), of "losses self @ [a]" ys] by (simp add: self1_def)
    have fl: "fed_losses tr (x # xs) = a # fed_losses tr xs"
      by (simp add: fed_losses_def x a_def)
    define f where "f = (\<lambda>i. np_median (newest m (losses self @ take (Suc i) (fed_losses tr (x # xs)))))"
    define g where "g = (\<lambda>i. np_median (newest m (losses self1 @ take (Suc i) (fed_losses tr xs))))"
    define Ms where "Ms = (map Inr (loss_medians self) :: (error + real) list)"
    have fg: "f (Suc i) = g i" for i
      by (simp add: f_def g_def fl w)
    have f0: "f 0 = Inr med"
      using med by (simp add: f_def fl)
    have "map f [0..<length (x # xs)] = f 0 # map (\<lambda>i. f (Suc i)) [0..<length xs]"
      by (simp only: list.size map_upt_Suc add_Suc_right Nat.add_0_right One_nat_def)
    then have split: "map f [0..<length (x # xs)] = Inr med # map g [0..<length xs]"
      by (simp only: fg f0)
    have one: "map Inr (loss_medians self1) = newest m (Ms @ [Inr med])"
      by (simp add: self1_def map_newest Ms_def)
    have "map Inr (loss_medians self') = newest m (newest m (Ms @ [Inr med]) @ map g [0..<length xs])"
      using M by (simp only: one g_def)
    also have "\<dots> = newest m ((Ms @ [Inr med]) @ map g [0..<length xs])"
      by (rule newest_append [OF assms(3)])
    also have "\<dots> = newest m (Ms @ map f [0..<length (x # xs)])"
      by (simp only: split append_assoc append_Cons append_Nil)
    finally show ?thesis by (simp only: f_def Ms_def)
  qed
  ultimately show ?case by blast
qed

lemma wandb_call_fails:
  assumes "\<not> (device_steps tr \<noteq> 0
            \<and> (\<exists>m\<ge>0. py_max (map (\<lambda>s. s div device_steps tr) (median_sizes wb)) = Inr m))"
  shows "\<exists>e. wandb_call tr wb (wandb_log_init r) loss top_loss = Inl e"
proof (cases "device_steps tr = 0")
  case True
  then show ?thesis
    by (cases "median_sizes wb") (simp_all add: wandb_call_def Let_def py_max_def)
next
  case False
  show ?thesis
  proof (cases "py_max (map (\<lambda>s. s div device_steps tr) (median_sizes wb))")
    case (Inl e)
    then show ?thesis using False by (simp add: wandb_call_def Let_def)
  next
    case (Inr m)
    then have "m < 0" using assms False by auto
    then have "py_slice_from (- m) ([] @ [loss / real_of_int (device_steps tr)]) = []"
      by (simp add: py_slice_from_def)
    then show ?thesis
      using False Inr by (simp add: wandb_call_def Let_def wandb_log_init_def np_median_def)
  qed
qed

lemma feed_fails:
  assumes "\<not> (device_steps tr \<noteq> 0
            \<and> (\<exists>m\<ge>0. py_max (map (\<lambda>s. s div device_steps tr) (median_sizes wb)) = Inr m))"
    and "feed tr wb (wandb_log_init r) xs = Inr (ss, self')"
  shows "xs = [] \<and> ss = [] \<and> self' = wandb_log_init r"
proof (cases xs)
  case Nil
  then show ?thesis using assms(2) by simp
next
  case (Cons x rest)
  obtain l t where x: "x = (l, t)" by (cases x)
  obtain e where "wandb_call tr wb (wandb_log_init r) l t = Inl e"
    using wandb_call_fails [OF assms(1)] by blast
  then show ?thesis using assms(2) by (simp add: Cons x)
qed

lemma feed_descending:
  assumes "device_steps tr \<noteq> 0"
    and "py_max (map (\<lambda>s. s div device_steps tr) (median_sizes wb)) = Inr m"
    and "0 \<le> m"
    and "0 \<le> minimum_relative_loss_change (early_stopping tr)"
    and "sorted_wrt (\<ge>) (losses self @ map (\<lambda>(l, t). l / real_of_int (device_steps tr)) xs)"
    and "\<forall>v\<in>set (losses self @ map (\<lambda>(l, t). l / real_of_int (device_steps tr)) xs). 0 \<le> v"
    and "losses self = [] \<longrightarrow> loss_medians self = []"
    and "\<forall>d\<in>set (loss_medians self). \<forall>v. np_median (losses self) = Inr v \<longrightarrow> v \<le> d"
  shows "\<exists>ss self'. feed tr wb self xs = Inr (ss, self') \<and> NotImproving \<notin> set ss"
  using assms(5-8)
proof (induction xs arbitrary: self)
  case Nil
  show ?case by simp
next
  case (Cons x xs)
  obtain l t where x: "x = (l, t)" by (cases x)
  define a where "a = l / real_of_int (device_steps tr)"
  define rest where "rest = map (\<lambda>(l, t). l / real_of_int (device_steps tr)) xs"
  have desc: "sorted_wrt (\<ge>) ((losses self @ [a]) @ rest)"
    and nonneg: "\<forall>v\<in>set ((losses self @ [a]) @ rest). 0 \<le> v"
    using Cons.prems(1,2) by (simp_all add: x a_def rest_def)
  have desc1: "sorted_wrt (\<ge>) (losses self @ [a])"
    using desc by (simp add: sorted_wrt_append)
  obtain j where j: "j \<le> length (losses self)"
    "py_slice_from (- m) (losses self @ [a]) = drop j (losses self @ [a])"
    using py_slice_drop [OF assms(3), of "losses self" a] by blast
  define W where "W = py_slice_from (- m) (losses self @ [a])"
  have W: "W = drop j (losses self @ [a])" "W \<noteq> []" using j by (simp_all add: W_def)
  have Wdesc: "sorted_wrt (\<ge>) W" unfolding W(1) using desc1 by (rule sorted_wrt_drop)
  have Wnonneg: "\<forall>v\<in>set W. 0 \<le> v"
    using nonneg unfolding W(1) by (auto dest: in_set_dropD)
  obtain med where med: "np_median W = Inr med"
    using np_median_nonempty [OF W(2)] by blast
  have med0: "0 \<le> med" using median_nonneg [OF Wdesc W(2) Wnonneg med] .
  define Md where "Md = py_slice_from (- m) (loss_medians self @ [med])"
  have Mdne: "Md \<noteq> []" unfolding Md_def using assms(3) by (rule py_slice_nonempty)
  have old: "med \<le> d" if "d \<in> set (loss_medians self)" for d
  proof -
    have ne: "losses self \<noteq> []" using that Cons.prems(3) by auto
    then obtain v where v: "np_median (losses self) = Inr v"
      using np_median_nonempty by blast
    have "v \<le> d" using Cons.prems(4) that v by blast
    moreover have "med \<le> v"
      using median_after_append [OF desc1 ne assms(3) v] med by (simp add: W_def)
    ultimately show ?thesis by simp
  qed
  have "set Md \<subseteq> set (loss_medians self @ [med])"
    using assms(3) by (auto simp add: Md_def py_slice_last dest: in_set_dropD)
  then have all: "\<forall>d\<in>set Md. med \<le> d" using old by auto
  have last: "last Md = med"
    using assms(3) by (auto simp add: Md_def py_slice_last)
  have "hd Md \<in> set Md" using Mdne by simp
  then have "med \<le> hd Md" using all by blast
  moreover have "med * (1 - minimum_relative_loss_change (early_stopping tr)) \<le> med"
    using med0 assms(4) by (simp add: mult_left_le)
  ultimately have quiet: "\<not> hd Md < last Md * (1 - minimum_relative_loss_change (early_stopping tr))"
    using last by simp
  define self1 where "self1 = self\<lparr>idx := idx self + 1, losses := W,
      accuracies := py_slice_from (- m) (accuracies self @ [t / real_of_int (device_steps tr)]),
      loss_medians := Md\<rparr>"
  obtain s where call: "wandb_call tr wb self l t = Inr (s, self1)" and s: "s \<noteq> NotImproving"
    using wandb_call_step [OF assms(1,2), of self l med t] med Mdne quiet
    unfolding self1_def W_def Md_def a_def by blast
  have "sorted_wrt (\<ge>) (losses self1 @ rest)"
  proof -
    have "W @ rest = drop j ((losses self @ [a]) @ rest)" using j(1) by (simp add: W(1))
    then show ?thesis using sorted_wrt_drop [OF desc, of j] by (simp add: self1_def)
  qed
  moreover have "\<forall>v\<in>set (losses self1 @ rest). 0 \<le> v"
    using nonneg Wnonneg by (auto simp add: self1_def)
  moreover have "losses self1 = [] \<longrightarrow> loss_medians self1 = []"
    using W(2) by (simp add: self1_def)
  moreover have "\<forall>d\<in>set (loss_medians self1). \<forall>v. np_median (losses self1) = Inr v \<longrightarrow> v \<le> d"
    using all med by (simp add: self1_def)
  ultimately obtain ss self' where "feed tr wb self1 xs = Inr (ss, self')" "NotImproving \<notin> set ss"
    using Cons.IH [of self1] unfolding rest_def by blast
  then have "feed tr wb self (x # xs) = Inr (s # ss, self') \<and> NotImproving \<notin> set (s # ss)"
    using call s by (simp add: x)
  then show ?case by blast
qed

text \<open>
  Claim C7, as amended. Let the unrolled step count be positive and the relative
  fraction non-negative. Feeding a monitor in its initial state, one call at a time, a
  strictly decreasing sequence of non-negative loss values of any length (in particular
  of the length of the largest window) never yields the signal \<^verbatim>\<open>Not Improving\<close>; and
  when the largest window \<open>m = max (s // device_steps)\<close> exists and is non-negative,
  every call returns. A call, from any state, gives that signal exactly when
  \<^verbatim>\<open>loss_medians[0] < loss_medians[-1] * (1 - fraction)\<close>: the oldest median of the
  window is less than the newest median times \<open>1 - fraction\<close>.
\<close>

theorem decreasing_losses_never_not_improving:
  assumes "0 < device_steps tr"
    and "0 \<le> minimum_relative_loss_change (early_stopping tr)"
    and "sorted_wrt (>) (map fst xs)"
    and "\<forall>x\<in>set xs. 0 \<le> fst x"
  shows "(\<forall>ss self'. feed tr wb (wandb_log_init r) xs = Inr (ss, self') \<longrightarrow> NotImproving \<notin> set ss)
       \<and> (\<forall>m. py_max (map (\<lambda>s. s div device_steps tr) (median_sizes wb)) = Inr m \<and> 0 \<le> m \<longrightarrow>
             (\<exists>ss self'. feed tr wb (wandb_log_init r) xs = Inr (ss, self')))
       \<and> (\<forall>self loss top_loss s self'.
             wandb_call tr wb self loss top_loss = Inr (s, self') \<longrightarrow>
             (s = NotImproving \<longleftrightarrow>
                hd (loss_medians self') < last (loss_medians self')
                  * (1 - minimum_relative_loss_change (early_stopping tr))))"
proof -
  define k where "k = real_of_int (device_steps tr)"
  have k: "0 < k" using assms(1) by (simp add: k_def)
  have steps: "device_steps tr \<noteq> 0" using assms(1) by simp
  have strict: "sorted_wrt (\<lambda>x y. fst y < fst x) xs"
    using assms(3) by (simp add: sorted_wrt_map)
  have "sorted_wrt (\<lambda>x y. fst y / k \<le> fst x / k) xs"
    by (rule sorted_wrt_mono_rel [OF _ strict]) (simp add: divide_right_mono k less_imp_le)
  then have desc: "sorted_wrt (\<ge>) (map (\<lambda>(l, t). l / k) xs)"
    by (simp add: sorted_wrt_map case_prod_beta)
  have nonneg: "\<forall>v\<in>set (map (\<lambda>(l, t). l / k) xs). 0 \<le> v"
    using assms(4) k by (auto simp add: case_prod_beta)
  have run: "\<exists>ss self'. feed tr wb (wandb_log_init r) xs = Inr (ss, self') \<and> NotImproving \<notin> set ss"
    if "py_max (map (\<lambda>s. s div device_steps tr) (median_sizes wb)) = Inr m" "0 \<le> m" for m
    using feed_descending [OF steps that assms(2), of "wandb_log_init r" xs] desc nonneg
    by (simp add: wandb_log_init_def k_def)
  have quiet: "NotImproving \<notin> set ss"
    if fed: "feed tr wb (wandb_log_init r) xs = Inr (ss, self')" for ss self'
  proof (cases "device_steps tr \<noteq> 0
            \<and> (\<exists>m\<ge>0. py_max (map (\<lambda>s. s div device_steps tr) (median_sizes wb)) = Inr m)")
    case True
    then obtain m where "py_max (map (\<lambda>s. s div device_steps tr) (median_sizes wb)) = Inr m" "0 \<le> m"
      by blast
    then obtain ss2 self2 where "feed tr wb (wandb_log_init r) xs = Inr (ss2, self2)"
      "NotImproving \<notin> set ss2"
      using run by blast
    then show ?thesis using fed by simp
  next
    case False
    then have "ss = []" using feed_fails [OF False fed] by simp
    then show ?thesis by simp
  qed
  have fires: "s = NotImproving \<longleftrightarrow> hd (loss_medians self') < last (loss_medians self')
      * (1 - minimum_relative_loss_change (early_stopping tr))"
    if "wandb_call tr wb self loss top_loss = Inr (s, self')" for self loss top_loss s self'
    using wandb_call_signal [OF that] .
  show ?thesis
  proof (intro conjI allI impI)
    fix ss self'
    assume "feed tr wb (wandb_log_init r) xs = Inr (ss, self')"
    then show "NotImproving \<notin> set ss" by (rule quiet)
  next
    fix m
    assume "py_max (map (\<lambda>s. s div device_steps tr) (median_sizes wb)) = Inr m \<and> 0 \<le> m"
    then show "\<exists>ss self'. feed tr wb (wandb_log_init r) xs = Inr (ss, self')"
      using run by blast
  next
    fix self loss top_loss s self'
    assume "wandb_call tr wb self loss top_loss = Inr (s, self')"
    then show "s = NotImproving \<longleftrightarrow> hd (loss_medians self') < last (loss_medians self')
      * (1 - minimum_relative_loss_change (early_stopping tr))"
      by (rule fires)
  qed
qed

theorem decreasing_losses_never_not_improving_witness:
  "feed example_training example_wandb (wandb_log_init False) [(3, 1), (2, 1)] =
     Inr ([NoRun, NoRun],
          \<lparr>run = False, losses = [3, 2], accuracies = [1, 1], idx = 2, loss_medians = [3, 5 / 2]\<rparr>)"
proof -
  have "\<forall>ss self'. feed example_training example_wandb (wandb_log_init False) [(3, 1), (2, 1)] = Inr (ss, self')
      \<longrightarrow> NotImproving \<notin> set ss"
    using decreasing_losses_never_not_improving [where tr = example_training and wb = example_wandb
        and xs = "[(3, 1), (2, 1)]" and r = False]
    by (simp add: example_training_def)
  then show ?thesis
    by (simp add: wandb_call_def wandb_log_init_def example_training_def example_wandb_def
        py_max_def py_slice_from_def np_median_def py_index_def Let_def)
qed

text \<open>
  Claim C7 as stated fails. A strictly decreasing sequence of negative values gives the
  signal at the first call, where the only median \<open>l\<close> is both the oldest and the
  newest and \<open>l < l * (1 - 1/10)\<close> for \<open>l = -1\<close>. With the fraction \<open>-1/10\<close> the
  decreasing sequence \<open>3, 2\<close> gives it at the first call. A monitor that already holds
  the loss \<open>1\<close> gives it at both calls for \<open>10, 9\<close>, the oldest median of its window
  lying below the newest one each time.
\<close>

theorem decreasing_losses_counterexample:
  "feed example_training example_wandb (wandb_log_init False) [(- 1, 1), (- 2, 1)] =
     Inr ([NotImproving, Spiking],
          \<lparr>run = False, losses = [- 1, - 2], accuracies = [1, 1], idx = 2,
             loss_medians = [- 1, - 3 / 2]\<rparr>)
   \<and> feed (example_training\<lparr>early_stopping :=
              \<lparr>minimum_relative_loss_change = - 1 / 10, maximum_spike_size = 2,
                 maximum_spike_duration = 2\<rparr>\<rparr>)
       example_wandb (wandb_log_init False) [(3, 1), (2, 1)] =
     Inr ([NotImproving, NoRun],
          \<lparr>run = False, losses = [3, 2], accuracies = [1, 1], idx = 2,
             loss_medians = [3, 5 / 2]\<rparr>)
   \<and> feed example_training example_wandb
       \<lparr>run = False, losses = [1], accuracies = [1], idx = 1, loss_medians = [1]\<rparr>
       [(10, 1), (9, 1)] =
     Inr ([NotImproving, NotImproving],
          \<lparr>run = False, losses = [10, 9], accuracies = [1, 1], idx = 3,
             loss_medians = [11 / 2, 19 / 2]\<rparr>)"
  by (simp add: wandb_call_def wandb_log_init_def example_training_def example_wandb_def
      py_max_def py_slice_from_def np_median_def py_index_def Let_def)

text \<open>
  Claim C8, as amended. Whenever the calls of a run from the initial state return, the
  three windows have equal length afterwards, whatever the configuration. When
  \<open>device_steps\<close> is non-zero and the largest window \<open>m = max (s // device_steps)\<close> is
  non-negative, every call returns, and each window is \<open>newest m\<close> of what was appended
  to it: the losses, the accuracies, and the medians, the median appended by a call
  being that of the \<open>newest m\<close> losses at that call. For \<open>m \<ge> 1\<close> these are the \<open>m\<close>
  most recent entries in order of arrival, at most \<open>m\<close> of them, the oldest having been
  dropped first; for \<open>m = 0\<close> nothing is dropped.
\<close>

theorem monitor_windows:
  "(\<forall>ss self'. feed tr wb (wandb_log_init r) xs = Inr (ss, self') \<longrightarrow>
      length (accuracies self') = length (losses self')
      \<and> length (loss_medians self') = length (losses self'))
   \<and> (device_steps tr \<noteq> 0
        \<and> py_max (map (\<lambda>s. s div device_steps tr) (median_sizes wb)) = Inr m \<and> 0 \<le> m \<longrightarrow>
      (\<exists>ss self'. feed tr wb (wandb_log_init r) xs = Inr (ss, self')
         \<and> losses self' = newest m (fed_losses tr xs)
         \<and> accuracies self' = newest m (fed_accuracies tr xs)
         \<and> map Inr (loss_medians self') = newest m (median_history tr m xs)
         \<and> length (losses self') = (if m = 0 then length xs else min (length xs) (nat m))))"
proof -
  have content: "\<exists>ss self'. feed tr wb (wandb_log_init r) xs = Inr (ss, self')
         \<and> losses self' = newest m (fed_losses tr xs)
         \<and> accuracies self' = newest m (fed_accuracies tr xs)
         \<and> map Inr (loss_medians self') = newest m (median_history tr m xs)
         \<and> length (losses self') = (if m = 0 then length xs else min (length xs) (nat m))"
    if steps: "device_steps tr \<noteq> 0"
      and m: "py_max (map (\<lambda>s. s div device_steps tr) (median_sizes wb)) = Inr m" and m0: "0 \<le> m"
    for m
  proof -
    have init: "newest m (losses (wandb_log_init r)) = losses (wandb_log_init r)"
      "newest m (accuracies (wandb_log_init r)) = accuracies (wandb_log_init r)"
      "newest m (loss_medians (wandb_log_init r)) = loss_medians (wandb_log_init r)"
      by (simp_all add: wandb_log_init_def newest_Nil)
    have empty: "losses (wandb_log_init r) = []" "accuracies (wandb_log_init r) = []"
      "loss_medians (wandb_log_init r) = []"
      by (simp_all add: wandb_log_init_def)
    obtain ss self' where "feed tr wb (wandb_log_init r) xs = Inr (ss, self')"
      and "losses self' = newest m (fed_losses tr xs)"
      and "accuracies self' = newest m (fed_accuracies tr xs)"
      and "map Inr (loss_medians self') = newest m (median_history tr m xs)"
      using feed_windows [OF steps m m0 init, of xs]
      unfolding empty median_history_def by auto
    moreover from this have "length (losses self') = (if m = 0 then length xs else min (length xs) (nat m))"
      using m0 by (simp add: length_newest fed_losses_def)
    ultimately show ?thesis by blast
  qed
  have equal: "length (accuracies self') = length (losses self')
      \<and> length (loss_medians self') = length (losses self')"
    if run: "feed tr wb (wandb_log_init r) xs = Inr (ss, self')" for ss self'
  proof (cases "device_steps tr \<noteq> 0
            \<and> (\<exists>m\<ge>0. py_max (map (\<lambda>s. s div device_steps tr) (median_sizes wb)) = Inr m)")
    case True
    then obtain m where m: "device_steps tr \<noteq> 0" "0 \<le> m"
      "py_max (map (\<lambda>s. s div device_steps tr) (median_sizes wb)) = Inr m" by blast
    obtain ss2 self2 where r2: "feed tr wb (wandb_log_init r) xs = Inr (ss2, self2)"
      and c: "losses self2 = newest m (fed_losses tr xs)"
        "accuracies self2 = newest m (fed_accuracies tr xs)"
        "map Inr (loss_medians self2) = newest m (median_history tr m xs)"
      using content [OF m(1,3,2)] by blast
    have same: "self2 = self'" using run r2 by simp
    have "length (loss_medians self2) = length (map Inr (loss_medians self2) :: (error + real) list)"
      by simp
    also have "\<dots> = length (newest m (median_history tr m xs))" by (simp only: c(3))
    finally have "length (loss_medians self2) = length (newest m (fed_losses tr xs))"
      using m(2) by (simp add: length_newest median_history_def fed_losses_def)
    moreover have "length (accuracies self2) = length (newest m (fed_losses tr xs))"
      using m(2) by (simp add: c(2) length_newest fed_losses_def fed_accuracies_def)
    ultimately show ?thesis using c(1) same by simp
  next
    case False
    then have "self' = wandb_log_init r" using feed_fails [OF False run] by simp
    then show ?thesis by (simp add: wandb_log_init_def)
  qed
  show ?thesis using content equal by blast
qed

theorem monitor_windows_witness:
  "feed example_training example_wandb (wandb_log_init False) [(3, 1), (2, 4), (1, 5)] =
     Inr ([NoRun, NoRun, NoRun],
          \<lparr>run = False, losses = [2, 1], accuracies = [4, 5], idx = 3,
             loss_medians = [5 / 2, 3 / 2]\<rparr>)
   \<and> median_history example_training 2 [(3, 1), (2, 4), (1, 5)] = [Inr 3, Inr (5 / 2), Inr (3 / 2)]"
proof -
  have m: "py_max (map (\<lambda>s. s div device_steps example_training) (median_sizes example_wandb)) = Inr 2"
    by (simp add: py_max_def example_training_def example_wandb_def)
  have ex: "\<exists>ss self'. feed example_training example_wandb (wandb_log_init False)
      [(3, 1), (2, 4), (1, 5)] = Inr (ss, self')"
    using monitor_windows [where tr = example_training and wb = example_wandb
        and xs = "[(3, 1), (2, 4), (1, 5)]" and r = False and m = 2] m
    by (auto simp add: example_training_def)
  have fed: "feed example_training example_wandb (wandb_log_init False) [(3, 1), (2, 4), (1, 5)] =
     Inr ([NoRun, NoRun, NoRun],
          \<lparr>run = False, losses = [2, 1], accuracies = [4, 5], idx = 3,
             loss_medians = [5 / 2, 3 / 2]\<rparr>)"
    by (simp add: wandb_call_def wandb_log_init_def example_training_def example_wandb_def
        py_max_def py_slice_from_def np_median_def py_index_def Let_def)
  have history: "median_history example_training 2 [(3, 1), (2, 4), (1, 5)] =
      [Inr 3, Inr (5 / 2), Inr (3 / 2)]"
    by (simp add: median_history_def fed_losses_def newest_def example_training_def np_median_def
        upt_rec Let_def)
  from ex fed history show ?thesis by simp
qed

text \<open>
  Claim C8 as stated fails when every configured window is shorter than
  \<open>device_steps\<close>: with \<open>median_sizes = [1]\<close> and \<open>device_steps = 2\<close> the largest window is
  \<open>1 // 2 = 0\<close>, the slice \<^verbatim>\<open>[-0:]\<close> keeps the whole list, and after two calls each
  window holds two entries.
\<close>

theorem monitor_windows_uncapped_counterexample:
  "py_max (map (\<lambda>s. s div 2) [1]) = Inr 0
   \<and> feed (example_training\<lparr>device_steps := 2\<rparr>) \<lparr>median_sizes = [1], log_frequency = 1\<rparr>
       (wandb_log_init False) [(2, 2), (2, 2)] =
     Inr ([NoRun, NoRun],
          \<lparr>run = False, losses = [1, 1], accuracies = [1, 1], idx = 2, loss_medians = [1, 1]\<rparr>)"
  by (simp add: wandb_call_def wandb_log_init_def example_training_def
      py_max_def py_slice_from_def np_median_def py_index_def Let_def)

end
